(* ===== verification/Cx_Prelude.thy ===== *)
theory Cx_Prelude
  imports Complex_Main "HOL-Library.Signed_Division"
begin

text \<open>
  Shared vocabulary of the development of \<^verbatim>\<open>src/app.cpp\<close>: the error that the
  division operators throw, the result type of a fallible operation, the collection
  \<open>cx_ops\<close> into which every component declares the equations of its operations, and
  generic lemmas on C's truncating integer division by two (\<open>n / 2\<close> and \<open>n % 2\<close>
  of \<^verbatim>\<open>Complex<T>::power\<close>, modelled by \<open>sdiv\<close> and \<open>smod\<close> of
  HOL-Library.Signed_Division) and on square roots.
\<close>

named_theorems cx_ops "equations of the operations of Complex<T>"

text \<open>
  \<^verbatim>\<open>throw std::invalid_argument("Division by Zero not allowed")\<close> is the only
  exception the class raises; a fallible operation returns \<open>Inl\<close> of it.
\<close>

datatype cx_error = Division_by_zero

type_synonym 'a cx_result = "cx_error + 'a"

subsection \<open>C integer division by two\<close>

lemma sdiv2_nat_abs: "nat \<bar>n sdiv 2\<bar> = nat \<bar>n\<bar> div 2"
  for n :: int
  by (simp add: signed_divide_int_def abs_mult sgn_if nat_div_distrib)

lemma smod2_eq_0_iff: "n smod 2 = 0 \<longleftrightarrow> even n"
  for n :: int
  by (auto simp: smod_int_alt_def sgn_if even_iff_mod_2_eq_zero)

lemma nat_abs_sdiv2_less: "n \<noteq> 0 \<Longrightarrow> nat \<bar>n sdiv 2\<bar> < nat \<bar>n\<bar>"
  for n :: int
  by (simp add: sdiv2_nat_abs)

lemma abs_sdiv2_less: "n \<noteq> 0 \<Longrightarrow> \<bar>n sdiv 2\<bar> < \<bar>n\<bar>"
  for n :: int
  using nat_abs_sdiv2_less [of n] by simp

lemma nat_abs_split2:
  "nat \<bar>n\<bar> = 2 * nat \<bar>n sdiv 2\<bar> + (if n smod 2 = 0 then 0 else 1)"
  for n :: int
proof -
  have "even (nat \<bar>n\<bar>) \<longleftrightarrow> even n"
    by (simp add: even_nat_iff)
  then show ?thesis
    by (auto simp: sdiv2_nat_abs smod2_eq_0_iff elim!: evenE oddE)
qed

lemma sdiv2_uminus: "(- n) sdiv 2 = - (n sdiv 2)"
  and smod2_uminus_eq_0: "(- n) smod 2 = 0 \<longleftrightarrow> n smod 2 = 0"
  for n :: int
  by simp_all

subsection \<open>Lists\<close>

lemma in_set_tlD: "x \<in> set (tl xs) \<Longrightarrow> x \<in> set xs"
  by (cases xs) auto

subsection \<open>Square roots and the arctangent\<close>

lemma sqrt_one_plus_sq_div:
  assumes "x \<noteq> 0"
  shows "sqrt (1 + (y / x)\<^sup>2) = sqrt (x\<^sup>2 + y\<^sup>2) / \<bar>x\<bar>"
proof -
  have "1 + (y / x)\<^sup>2 = (x\<^sup>2 + y\<^sup>2) / x\<^sup>2"
    using assms by (simp add: field_simps power2_eq_square)
  then show ?thesis
    by (simp add: real_sqrt_divide)
qed

text \<open>The partial sums of the arctangent series bracket it (Leibniz), with an even
  number of terms below and an odd number above.\<close>

lemma arctan_leibniz:
  assumes "0 < x" "x \<le> 1"
  shows "(\<Sum>i<2 * n. (-1) ^ i * (1 / real (i * 2 + 1) * x ^ (i * 2 + 1))) \<le> arctan x \<and>
         arctan x \<le> (\<Sum>i<2 * n + 1. (-1) ^ i * (1 / real (i * 2 + 1) * x ^ (i * 2 + 1)))"
proof -
  have a: "\<bar>x\<bar> \<le> 1" using assms by simp
  have "0 < 1 / real (0 * 2 + 1) * x ^ (0 * 2 + 1)" using assms by simp
  then show ?thesis
    using summable_Leibniz(2) [OF zeroseq_arctan_series [OF a] monoseq_arctan_series [OF a]]
      arctan_series [OF a] by auto
qed

end
