(* ===== verification/Cx_Arith.thy ===== *)
theory Cx_Arith
  imports Cx_Prelude
begin

text \<open>
  The value type \<^verbatim>\<open>Complex<T>\<close> of \<^verbatim>\<open>src/app.cpp\<close> and its arithmetic (spec 4.1):
  the record of its two fields, the constructor, the two assignment operators, the
  binary operators \<open>+ - * /\<close> against a complex value and against a bare scalar,
  their compound forms \<open>+= -= *= /=\<close>, and \<^verbatim>\<open>conjugate\<close>. The template parameter
  \<open>T\<close> is the type variable \<open>'a\<close>, constrained only by the operations each member
  uses; the floating-point instance is modelled exactly (see the root theory).
  A member function takes the receiver \<^verbatim>\<open>*this\<close> as its first argument \<open>self\<close>;
  an assigning member returns the receiver's new value; a throwing one returns
  \<open>cx_error + 'a Complex\<close>.
\<close>

record 'a Complex =
  m_real :: 'a
  m_img :: 'a

text \<open>\<^verbatim>\<open>explicit Complex(const T& real=0.0, const T& img=0.0)\<close>\<close>

definition Complex_new :: "'a \<Rightarrow> 'a \<Rightarrow> 'a Complex" where
  "Complex_new re im = \<lparr>m_real = re, m_img = im\<rparr>"

text \<open>Copy assignment, and assignment from a scalar, which resets the imaginary part.\<close>

definition operator_assign :: "'a Complex \<Rightarrow> 'a Complex \<Rightarrow> 'a Complex" where
  "operator_assign self c = self\<lparr>m_real := m_real c, m_img := m_img c\<rparr>"

definition operator_assign_scalar :: "'a::zero Complex \<Rightarrow> 'a \<Rightarrow> 'a Complex" where
  "operator_assign_scalar self x = self\<lparr>m_real := x, m_img := 0\<rparr>"

subsection \<open>Binary operators\<close>

definition operator_add :: "'a::plus Complex \<Rightarrow> 'a Complex \<Rightarrow> 'a Complex" where
  "operator_add self c = Complex_new (m_real self + m_real c) (m_img self + m_img c)"

definition operator_add_scalar :: "'a::plus Complex \<Rightarrow> 'a \<Rightarrow> 'a Complex" where
  "operator_add_scalar self x = Complex_new (m_real self + x) (m_img self)"

definition operator_sub :: "'a::minus Complex \<Rightarrow> 'a Complex \<Rightarrow> 'a Complex" where
  "operator_sub self c = Complex_new (m_real self - m_real c) (m_img self - m_img c)"

definition operator_sub_scalar :: "'a::minus Complex \<Rightarrow> 'a \<Rightarrow> 'a Complex" where
  "operator_sub_scalar self x = Complex_new (m_real self - x) (m_img self)"

definition operator_mul :: "'a::{times, plus, minus} Complex \<Rightarrow> 'a Complex \<Rightarrow> 'a Complex" where
  "operator_mul self c =
     Complex_new (m_real self * m_real c - m_img self * m_img c)
                 (m_real self * m_img c + m_img self * m_real c)"

definition operator_mul_scalar :: "'a::times Complex \<Rightarrow> 'a \<Rightarrow> 'a Complex" where
  "operator_mul_scalar self x = Complex_new (m_real self * x) (m_img self * x)"

text \<open>
  Division by a complex value: the zero-divisor guard throws; a zero dividend
  short-circuits to \<open>(0, 0)\<close>; otherwise the conjugate-multiplication formula, with
  \<^verbatim>\<open>pow(m_real1, 2) + pow(m_img1, 2)\<close> as denominator.
\<close>

definition operator_div :: "'a::field Complex \<Rightarrow> 'a Complex \<Rightarrow> 'a Complex cx_result" where
  "operator_div self c =
     (if m_real c = 0 \<and> m_img c = 0 then Inl Division_by_zero
      else if m_real self = 0 \<and> m_img self = 0 then Inr (Complex_new 0 0)
      else
        (let m_real1 = m_real c;
             m_img1 = m_img c;
             deNom = m_real1 ^ 2 + m_img1 ^ 2
         in Inr (Complex_new ((m_real self * m_real1 + m_img self * m_img1) / deNom)
                             ((m_img self * m_real1 - m_real self * m_img1) / deNom))))"

definition operator_div_scalar :: "'a::field Complex \<Rightarrow> 'a \<Rightarrow> 'a Complex cx_result" where
  "operator_div_scalar self x =
     (if x = 0 then Inl Division_by_zero
      else Inr (Complex_new (m_real self / x) (m_img self / x)))"

subsection \<open>Compound assignment: \<^verbatim>\<open>return *this = *this op c;\<close>\<close>

definition operator_add_assign :: "'a::plus Complex \<Rightarrow> 'a Complex \<Rightarrow> 'a Complex" where
  "operator_add_assign self c = operator_assign self (operator_add self c)"

definition operator_add_assign_scalar :: "'a::plus Complex \<Rightarrow> 'a \<Rightarrow> 'a Complex" where
  "operator_add_assign_scalar self x = operator_assign self (operator_add_scalar self x)"

definition operator_sub_assign :: "'a::minus Complex \<Rightarrow> 'a Complex \<Rightarrow> 'a Complex" where
  "operator_sub_assign self c = operator_assign self (operator_sub self c)"

definition operator_sub_assign_scalar :: "'a::minus Complex \<Rightarrow> 'a \<Rightarrow> 'a Complex" where
  "operator_sub_assign_scalar self x = operator_assign self (operator_sub_scalar self x)"

definition operator_mul_assign :: "'a::{times, plus, minus} Complex \<Rightarrow> 'a Complex \<Rightarrow> 'a Complex" where
  "operator_mul_assign self c = operator_assign self (operator_mul self c)"

definition operator_mul_assign_scalar :: "'a::times Complex \<Rightarrow> 'a \<Rightarrow> 'a Complex" where
  "operator_mul_assign_scalar self x = operator_assign self (operator_mul_scalar self x)"

text \<open>
  The division is evaluated before the assignment, so when it throws the receiver is
  left as it was and the exception propagates.
\<close>

definition operator_div_assign :: "'a::field Complex \<Rightarrow> 'a Complex \<Rightarrow> 'a Complex cx_result" where
  "operator_div_assign self c =
     (case operator_div self c of Inl e \<Rightarrow> Inl e | Inr r \<Rightarrow> Inr (operator_assign self r))"

definition operator_div_assign_scalar :: "'a::field Complex \<Rightarrow> 'a \<Rightarrow> 'a Complex cx_result" where
  "operator_div_assign_scalar self x =
     (case operator_div_scalar self x of Inl e \<Rightarrow> Inl e | Inr r \<Rightarrow> Inr (operator_assign self r))"

text \<open>
  \<^verbatim>\<open>conjugate(const Complex<T>& c) const\<close> negates the receiver's imaginary part;
  its argument \<open>c\<close> is not read.
\<close>

definition conjugate :: "'a::uminus Complex \<Rightarrow> 'a Complex \<Rightarrow> 'a Complex" where
  "conjugate self c = Complex_new (m_real self) (- m_img self)"

declare operator_add_def [cx_ops] operator_add_scalar_def [cx_ops]
  operator_sub_def [cx_ops] operator_sub_scalar_def [cx_ops]
  operator_mul_def [cx_ops] operator_mul_scalar_def [cx_ops]
  operator_div_scalar_def [cx_ops] conjugate_def [cx_ops]

subsection \<open>Shared facts on the record\<close>

lemma Complex_new_sel [simp]:
  "m_real (Complex_new a b) = a" "m_img (Complex_new a b) = b"
  by (simp_all add: Complex_new_def)

lemma Complex_eq_iff: "z = w \<longleftrightarrow> m_real z = m_real w \<and> m_img z = m_img w"
  for z w :: "'a Complex"
  by (cases z, cases w) simp

lemma Complex_new_eq_iff [simp]: "Complex_new a b = Complex_new c d \<longleftrightarrow> a = c \<and> b = d"
  by (simp add: Complex_eq_iff)

lemma Complex_new_eta [simp]: "Complex_new (m_real z) (m_img z) = z"
  by (simp add: Complex_eq_iff)

text \<open>On a plain \<^verbatim>\<open>Complex<T>\<close> both fields are overwritten: the copy is the argument.\<close>

lemma operator_assign_eq [simp]: "operator_assign self c = c"
  for self c :: "'a Complex"
  by (simp add: operator_assign_def Complex_eq_iff)

lemma operator_div_nonzero:
  assumes "\<not> (m_real c = 0 \<and> m_img c = 0)"
  shows "operator_div self c =
           Inr (Complex_new ((m_real self * m_real c + m_img self * m_img c) / (m_real c ^ 2 + m_img c ^ 2))
                            ((m_img self * m_real c - m_real self * m_img c) / (m_real c ^ 2 + m_img c ^ 2)))"
  using assms by (simp add: operator_div_def Let_def Complex_eq_iff)

lemma operator_mul_assoc:
  "operator_mul (operator_mul a b) c = operator_mul a (operator_mul b c)"
  for a b c :: "'a::comm_ring Complex"
  by (simp add: operator_mul_def algebra_simps)

lemma operator_mul_commute: "operator_mul a b = operator_mul b a"
  for a b :: "'a::comm_ring Complex"
  by (simp add: operator_mul_def algebra_simps)

lemma operator_mul_one_left [simp]: "operator_mul (Complex_new 1 0) a = a"
  for a :: "'a::comm_ring_1 Complex"
  by (simp add: operator_mul_def)

lemma operator_mul_one_right [simp]: "operator_mul a (Complex_new 1 0) = a"
  for a :: "'a::comm_ring_1 Complex"
  by (simp add: operator_mul_def)

lemma denom_pos: "\<not> (a = 0 \<and> b = 0) \<Longrightarrow> 0 < a ^ 2 + b ^ 2"
  for a b :: "'a::linordered_field"
  by (simp add: sum_power2_gt_zero_iff)


lemma conj_mul_components:
  fixes ar ai cr ci :: "'a::field"
  assumes "cr ^ 2 + ci ^ 2 \<noteq> 0"
  shows "(ar * cr + ai * ci) / (cr ^ 2 + ci ^ 2) * cr - (ai * cr - ar * ci) / (cr ^ 2 + ci ^ 2) * ci = ar \<and>
         (ar * cr + ai * ci) / (cr ^ 2 + ci ^ 2) * ci + (ai * cr - ar * ci) / (cr ^ 2 + ci ^ 2) * cr = ai"
proof -
  have "(ar * cr + ai * ci) * cr - (ai * cr - ar * ci) * ci = ar * (cr ^ 2 + ci ^ 2)"
   and "(ar * cr + ai * ci) * ci + (ai * cr - ar * ci) * cr = ai * (cr ^ 2 + ci ^ 2)"
    by (simp_all add: algebra_simps power2_eq_square)
  with assms show ?thesis
    by (simp add: divide_simps)
qed

subsection \<open>Properties of the arithmetic\<close>

text \<open>C2. Both division operators throw the division-by-zero error exactly when
  the divisor is zero: the complex form when both parts of the divisor are zero, the
  scalar form when the scalar is zero.\<close>

theorem operator_div_error:
  "(operator_div a c = Inl Division_by_zero \<longleftrightarrow> c = Complex_new 0 0) \<and>
   (operator_div_scalar a x = Inl Division_by_zero \<longleftrightarrow> x = 0)"
  for a c :: "'a::field Complex"
  by (auto simp: operator_div_def operator_div_scalar_def Let_def Complex_eq_iff)

text \<open>C3. The zero-dividend short-circuit of complex division is an optimisation
  only: on every non-zero divisor the result is the conjugate-multiplication formula,
  also when the dividend is zero.\<close>

theorem operator_div_eq_formula:
  "operator_div self c =
     (if c = Complex_new 0 0 then Inl Division_by_zero
      else Inr (Complex_new ((m_real self * m_real c + m_img self * m_img c) / (m_real c ^ 2 + m_img c ^ 2))
                            ((m_img self * m_real c - m_real self * m_img c) / (m_real c ^ 2 + m_img c ^ 2))))"
  for self c :: "'a::field Complex"
proof (cases "c = Complex_new 0 0")
  case True
  then show ?thesis by (simp add: operator_div_def Complex_eq_iff)
next
  case False
  then have "\<not> (m_real c = 0 \<and> m_img c = 0)" by (simp add: Complex_eq_iff)
  with False show ?thesis by (simp add: operator_div_nonzero)
qed

text \<open>C4. Division followed by multiplication gives back the dividend: whenever
  \<open>a / c\<close> returns a quotient \<open>q\<close>, \<open>q * c = a\<close> (exactly, over an ordered field).\<close>

theorem operator_div_mul_roundtrip:
  fixes a c q :: "'a::linordered_field Complex"
  assumes "operator_div a c = Inr q"
  shows "operator_mul q c = a"
proof -
  have nz: "\<not> (m_real c = 0 \<and> m_img c = 0)"
    using assms by (auto simp: operator_div_def)
  then have D: "m_real c ^ 2 + m_img c ^ 2 \<noteq> 0"
    using denom_pos by (metis less_irrefl)
  from assms nz have "q = Complex_new ((m_real a * m_real c + m_img a * m_img c) / (m_real c ^ 2 + m_img c ^ 2))
                            ((m_img a * m_real c - m_real a * m_img c) / (m_real c ^ 2 + m_img c ^ 2))"
    by (simp add: operator_div_nonzero)
  with conj_mul_components [OF D, of "m_real a" "m_img a"] show ?thesis
    by (simp add: operator_mul_def Complex_eq_iff)
qed

theorem operator_div_mul_roundtrip_witness:
  "operator_div (Complex_new 5 2) (Complex_new 4 5) = Inr (Complex_new (30/41) (-17/41 :: real)) \<and>
   operator_mul (Complex_new (30/41) (-17/41)) (Complex_new 4 5) = Complex_new 5 (2 :: real)"
proof -
  have d: "operator_div (Complex_new 5 2) (Complex_new 4 5) = Inr (Complex_new (30/41) (-17/41 :: real))"
    by (simp add: operator_div_def Let_def)
  show ?thesis using d operator_div_mul_roundtrip [OF d] by simp
qed

text \<open>C12. Every compound assignment replaces the receiver by the result of the
  corresponding binary operator, and the dividing ones throw exactly when the binary
  division throws, leaving the receiver unchanged.\<close>

theorem compound_assign_inherit:
  "operator_add_assign s c = operator_add s c \<and> operator_add_assign_scalar s x = operator_add_scalar s x \<and>
   operator_sub_assign s c = operator_sub s c \<and> operator_sub_assign_scalar s x = operator_sub_scalar s x \<and>
   operator_mul_assign s c = operator_mul s c \<and> operator_mul_assign_scalar s x = operator_mul_scalar s x \<and>
   operator_div_assign s c = operator_div s c \<and> operator_div_assign_scalar s x = operator_div_scalar s x"
  for s c :: "'a::field Complex"
  by (simp add: operator_add_assign_def operator_add_assign_scalar_def operator_sub_assign_def
      operator_sub_assign_scalar_def operator_mul_assign_def operator_mul_assign_scalar_def
      operator_div_assign_def operator_div_assign_scalar_def split: sum.split)

text \<open>C13. Assigning a scalar resets the value to \<open>(x, 0)\<close>, whatever it held: it
  is not the additive \<open>+= x\<close>, which keeps the imaginary part.\<close>

theorem operator_assign_scalar_resets:
  "operator_assign_scalar s x = Complex_new x 0 \<and>
   m_img (operator_add_assign_scalar s x) = m_img s"
  for s :: "'a::{zero, plus} Complex"
  by (simp add: operator_assign_scalar_def operator_add_assign_scalar_def operator_add_scalar_def
      Complex_eq_iff)

text \<open>C17. The scalar overloads treat the scalar \<open>x\<close> as the complex value
  \<open>(x, 0)\<close>: each equals its complex counterpart applied to \<open>Complex(x, 0)\<close>,
  including the error and the zero-dividend cases of the division.\<close>

theorem scalar_overloads_embed:
  "operator_add_scalar a x = operator_add a (Complex_new x 0) \<and>
   operator_sub_scalar a x = operator_sub a (Complex_new x 0) \<and>
   operator_mul_scalar a x = operator_mul a (Complex_new x 0) \<and>
   operator_div_scalar a x = operator_div a (Complex_new x 0)"
  for a :: "'a::field Complex"
proof -
  have "operator_div_scalar a x = operator_div a (Complex_new x 0)"
  proof (cases "x = 0")
    case True
    then show ?thesis by (simp add: operator_div_scalar_def operator_div_def)
  next
    case False
    then show ?thesis
      by (simp add: operator_div_scalar_def operator_div_nonzero power2_eq_square)
  qed
  then show ?thesis
    by (simp add: operator_add_scalar_def operator_add_def operator_sub_scalar_def operator_sub_def
        operator_mul_scalar_def operator_mul_def)
qed

end
