(* ===== verification/Cx_Polar.thy ===== *)
theory Cx_Polar
  imports Cx_Arith
begin

text \<open>
  Polar queries of \<^verbatim>\<open>Complex<T>\<close> (spec 4.2) on \<^verbatim>\<open>Complex<double>\<close>:
  \<^verbatim>\<open>mod()\<close> as \<open>Complex_mod\<close> and \<^verbatim>\<open>getPhase()\<close> as \<open>getPhase\<close>. Both
  call \<^verbatim>\<open><cmath>\<close>: \<open>sqrt\<close> is HOL's \<open>sqrt\<close>, \<open>pow(x, 2)\<close> is \<open>x ^ 2\<close>, and
  \<open>atan2\<close> is written out below from its definition in the C standard (the quadrant
  corrections of \<open>arctan (y / x)\<close>, \<open>atan2(0, 0) = 0\<close>; signed zeros do not exist in
  \<open>real\<close>). The lemmas show that \<open>atan2\<close> is the principal argument \<open>Arg\<close> of
  HOL's complex numbers, which gives the phase its range and the polar form.
\<close>

text \<open>\<^verbatim>\<open>double atan2(double y, double x)\<close> of the C library.\<close>

definition atan2 :: "real \<Rightarrow> real \<Rightarrow> real" where
  "atan2 y x =
     (if 0 < x then arctan (y / x)
      else if x < 0 then (if 0 \<le> y then arctan (y / x) + pi else arctan (y / x) - pi)
      else if 0 < y then pi / 2
      else if y < 0 then - (pi / 2)
      else 0)"

text \<open>\<^verbatim>\<open>double mod() const { return sqrt(pow(m_real, 2) + pow(m_img, 2)); }\<close>\<close>

definition Complex_mod :: "real Complex \<Rightarrow> real" where
  "Complex_mod self = sqrt (m_real self ^ 2 + m_img self ^ 2)"

text \<open>\<^verbatim>\<open>double getPhase() const { return atan2(m_img, m_real); }\<close>\<close>

definition getPhase :: "real Complex \<Rightarrow> real" where
  "getPhase self = atan2 (m_img self) (m_real self)"

declare Complex_mod_def [cx_ops] getPhase_def [cx_ops]

subsection \<open>The C library's atan2 is the principal argument\<close>

lemma atan2_cos_sin:
  assumes "x \<noteq> 0 \<or> y \<noteq> 0"
  shows "cos (atan2 y x) = x / sqrt (x\<^sup>2 + y\<^sup>2) \<and> sin (atan2 y x) = y / sqrt (x\<^sup>2 + y\<^sup>2)"
proof (cases "x = 0")
  case True
  with assms have "y \<noteq> 0" by simp
  with True show ?thesis
    by (auto simp: atan2_def real_sqrt_abs)
next
  case False
  define R where "R = sqrt (x\<^sup>2 + y\<^sup>2)"
  have r: "sqrt (1 + (y / x)\<^sup>2) = R / \<bar>x\<bar>"
    using False by (simp add: R_def sqrt_one_plus_sq_div)
  have pos: "0 < R"
    using False by (simp add: R_def sum_power2_gt_zero_iff)
  have c: "cos (arctan (y / x)) = \<bar>x\<bar> / R"
    by (simp add: cos_arctan r)
  have s: "sin (arctan (y / x)) = y / x * \<bar>x\<bar> / R"
    by (simp add: sin_arctan r)
  have "cos (atan2 y x) = x / R \<and> sin (atan2 y x) = y / R"
  proof (cases "0 < x")
    case True
    with c s show ?thesis by (simp add: atan2_def)
  next
    case False
    with \<open>x \<noteq> 0\<close> have "x < 0" by simp
    with c s show ?thesis by (simp add: atan2_def)
  qed
  then show ?thesis by (simp add: R_def)
qed

lemma atan2_range: "- pi < atan2 y x \<and> atan2 y x \<le> pi"
  using arctan_bounded [of "y / x"] pi_gt_zero
  by (auto simp: atan2_def divide_nonneg_neg divide_neg_neg)

lemma atan2_Arg: "atan2 y x = Arg (Complex x y)"
proof (cases "x = 0 \<and> y = 0")
  case True
  then have "Complex x y = 0" by (simp add: complex_eq_iff)
  with True show ?thesis by (simp add: atan2_def Arg_zero)
next
  case False
  then have cs: "cos (atan2 y x) = x / sqrt (x\<^sup>2 + y\<^sup>2) \<and> sin (atan2 y x) = y / sqrt (x\<^sup>2 + y\<^sup>2)"
    using atan2_cos_sin by blast
  have "sgn (Complex x y) = cis (atan2 y x)"
    using cs by (simp add: complex_eq_iff complex_norm)
  then show ?thesis
    using atan2_range by (metis cis_Arg_unique)
qed
lemma atan2_neg:
  "atan2 (- y) x = (if y = 0 \<and> x < 0 then pi else - atan2 y x)"
  by (auto simp: atan2_def arctan_minus)

subsection \<open>Properties of the polar queries\<close>

text \<open>C11. Modulus and phase determine the value: \<open>mod() * cos(getPhase())\<close> is the
  real part and \<open>mod() * sin(getPhase())\<close> the imaginary part.\<close>

theorem polar_roundtrip:
  "Complex_mod z * cos (getPhase z) = m_real z \<and> Complex_mod z * sin (getPhase z) = m_img z"
proof (cases "m_real z = 0 \<and> m_img z = 0")
  case True
  then show ?thesis by (simp add: Complex_mod_def)
next
  case False
  then have pos: "0 < sqrt (m_real z ^ 2 + m_img z ^ 2)"
    by (simp add: sum_power2_gt_zero_iff)
  from False have "cos (getPhase z) = m_real z / sqrt (m_real z ^ 2 + m_img z ^ 2) \<and>
                   sin (getPhase z) = m_img z / sqrt (m_real z ^ 2 + m_img z ^ 2)"
    unfolding getPhase_def by (intro atan2_cos_sin) simp
  with pos show ?thesis
    by (simp add: Complex_mod_def)
qed

text \<open>C18. Off the real axis, the phase of the conjugate is the negated phase. On
  the real axis the C++ conjugate yields a signed zero \<open>-0.0\<close>, which the exact model
  does not have, so the statement is restricted to \<open>m_img \<noteq> 0\<close>, where
  \<^verbatim>\<open>atan2\<close> is odd in its first argument for every sign of the second.\<close>

theorem getPhase_conjugate:
  assumes "m_img z \<noteq> 0"
  shows "getPhase (conjugate z c) = - getPhase z"
  using assms by (simp add: getPhase_def conjugate_def atan2_neg)

theorem getPhase_conjugate_witness:
  "m_img (Complex_new 1 (1 :: real)) \<noteq> 0 \<and>
   getPhase (conjugate (Complex_new 1 1) (Complex_new 0 0)) = - getPhase (Complex_new 1 (1 :: real)) \<and>
   getPhase (Complex_new 1 (1 :: real)) = pi / 4"
proof -
  have "getPhase (Complex_new 1 (1 :: real)) = pi / 4"
    by (simp add: getPhase_def atan2_def arctan_one)
  then show ?thesis
    using getPhase_conjugate [of "Complex_new 1 (1 :: real)" "Complex_new 0 0"] by simp
qed

end
