(* ===== verification/Cx_Power.thy ===== *)
theory Cx_Power
  imports Cx_Arith
begin

text \<open>
  \<^verbatim>\<open>static Complex<T> power(const Complex<T>& x, const int& n)\<close> (spec 4.3):
  exponentiation by squaring. The exponent is a C \<^verbatim>\<open>int\<close>; \<^verbatim>\<open>n/2\<close> and
  \<^verbatim>\<open>n%2\<close> truncate towards zero, which is \<open>sdiv\<close> and \<open>smod\<close> on \<open>int\<close>
  (neither can overflow on a 32-bit value, so \<open>int\<close> is exact). The recursion is
  a \<^theory_text>\<open>function\<close> whose termination measure is \<open>nat \<bar>n\<bar>\<close>, which halves at
  each call, also for negative \<open>n\<close>. The reference \<open>power_ref\<close> multiplies \<open>x\<close>
  by itself \<open>k\<close> times with \<open>operator_mul\<close>; \<open>power_depth\<close> counts the nested
  recursive calls. The lemmas prove equivalence with the reference, the behaviour on
  negative exponents, and a logarithmic bound on the recursion depth.
\<close>

function power_Complex :: "'a::comm_ring_1 Complex \<Rightarrow> int \<Rightarrow> 'a Complex" where
  "power_Complex x n =
     (if n = 0 then Complex_new 1 0
      else
        (let temp = power_Complex x (n sdiv 2)
         in if n smod 2 = 0 then operator_mul temp temp
            else operator_mul (operator_mul x temp) temp))"
  by pat_completeness auto
termination
  by (relation "measure (\<lambda>(x, n). nat \<bar>n\<bar>)") (simp_all add: abs_sdiv2_less)

declare power_Complex.simps [simp del]

primrec power_ref :: "'a::comm_ring_1 Complex \<Rightarrow> nat \<Rightarrow> 'a Complex" where
  "power_ref x 0 = Complex_new 1 0"
| "power_ref x (Suc k) = operator_mul x (power_ref x k)"

text \<open>
  The nesting depth of the recursive calls \<^verbatim>\<open>power(x, n/2)\<close> that one call of
  \<^verbatim>\<open>power(x, n)\<close> makes: the stack depth of the recursion.
\<close>

function power_depth :: "int \<Rightarrow> nat" where
  "power_depth n = (if n = 0 then 0 else Suc (power_depth (n sdiv 2)))"
  by pat_completeness auto
termination
  by (relation "measure (\<lambda>n. nat \<bar>n\<bar>)") (simp_all add: abs_sdiv2_less)

declare power_depth.simps [simp del]

subsection \<open>Shared facts\<close>

lemma power_Complex_0 [simp]: "power_Complex x 0 = Complex_new 1 0"
  by (simp add: power_Complex.simps)

lemma power_Complex_step:
  assumes "n \<noteq> 0"
  shows "power_Complex x n =
           (if n smod 2 = 0 then operator_mul (power_Complex x (n sdiv 2)) (power_Complex x (n sdiv 2))
            else operator_mul (operator_mul x (power_Complex x (n sdiv 2))) (power_Complex x (n sdiv 2)))"
  using assms by (simp add: power_Complex.simps [of x n] Let_def)

lemma power_ref_add:
  "power_ref x (i + j) = operator_mul (power_ref x i) (power_ref x j)"
  by (induction i) (simp_all add: operator_mul_assoc)

lemma power_Complex_rel_measure:
  "power_Complex_rel a b \<Longrightarrow> (a, b) \<in> measure (\<lambda>(x, n). nat \<bar>n\<bar>)"
  by (auto elim!: power_Complex_rel.cases simp: abs_sdiv2_less)

subsection \<open>Properties of power\<close>

text \<open>C6. Exponentiation by squaring computes the same value as multiplying
  \<open>x\<close> by itself \<open>|n|\<close> times, for every \<open>int\<close> exponent.\<close>

theorem power_Complex_eq_ref: "power_Complex x n = power_ref x (nat \<bar>n\<bar>)"
proof (induction x n rule: power_Complex.induct)
  case (1 x n)
  show ?case
  proof (cases "n = 0")
    case True
    then show ?thesis by simp
  next
    case False
    then have IH: "power_Complex x (n sdiv 2) = power_ref x (nat \<bar>n sdiv 2\<bar>)"
      using "1.IH" by simp
    have split: "nat \<bar>n\<bar> = nat \<bar>n sdiv 2\<bar> + nat \<bar>n sdiv 2\<bar> + (if n smod 2 = 0 then 0 else 1)"
      using nat_abs_split2 [of n] by simp
    show ?thesis
    proof (cases "n smod 2 = 0")
      case True
      with False IH split show ?thesis
        by (simp add: power_Complex_step power_ref_add)
    next
      case odd: False
      have "power_ref x (nat \<bar>n\<bar>) = operator_mul x (power_ref x (nat \<bar>n sdiv 2\<bar> + nat \<bar>n sdiv 2\<bar>))"
        using odd split by simp
      with False odd IH show ?thesis
        by (simp add: power_Complex_step power_ref_add operator_mul_assoc)
    qed
  qed
qed

text \<open>C7. A negative exponent is not a reciprocal: since \<open>n/2\<close> and \<open>n%2\<close>
  truncate towards zero, \<open>power(x, -n)\<close> is \<open>power(x, n)\<close>.\<close>

theorem power_Complex_negative: "power_Complex x (- n) = power_Complex x n"
proof (induction x n rule: power_Complex.induct)
  case (1 x n)
  show ?case
  proof (cases "n = 0")
    case True
    then show ?thesis by simp
  next
    case False
    with "1.IH" have "power_Complex x (- (n sdiv 2)) = power_Complex x (n sdiv 2)"
      by simp
    with False show ?thesis
      using power_Complex_step [of "- n" x] power_Complex_step [of n x]
      by (simp add: sdiv2_uminus smod2_uminus_eq_0)
  qed
qed

text \<open>C8. \<open>power(x, 0)\<close> is \<open>(1, 0)\<close> for every \<open>x\<close>, \<open>(0, 0)\<close> included, and
  \<open>power(x, 4)\<close> is \<open>x * x * x * x\<close>.\<close>

theorem power_Complex_spec_cases:
  "power_Complex x 0 = Complex_new 1 0 \<and> power_Complex (Complex_new 0 0) 0 = Complex_new 1 0 \<and>
   power_Complex x 4 = operator_mul (operator_mul (operator_mul x x) x) x"
proof -
  have "(1::int) sdiv 2 = 0" "(1::int) smod 2 = 1"
    by (simp_all add: signed_divide_int_def signed_modulo_int_def)
  then have "power_Complex x 4 = operator_mul (operator_mul x x) (operator_mul x x)"
    by (simp add: power_Complex_step)
  then show ?thesis
    by (simp add: operator_mul_assoc)
qed

text \<open>C20. The recursion of \<open>power\<close> is logarithmic: for \<open>n \<noteq> 0\<close> the number of
  nested calls \<open>d\<close> satisfies \<open>2 ^ (d - 1) \<le> |n| < 2 ^ d\<close>, so at most 32 for a
  32-bit \<^verbatim>\<open>int\<close>.\<close>

theorem power_depth_log:
  assumes "n \<noteq> 0"
  shows "2 ^ (power_depth n - 1) \<le> \<bar>n\<bar> \<and> \<bar>n\<bar> < 2 ^ power_depth n"
  using assms
proof (induction n rule: power_depth.induct)
  case (1 n)
  define m where "m = n sdiv 2"
  have m_abs: "nat \<bar>m\<bar> = nat \<bar>n\<bar> div 2"
    by (simp add: m_def sdiv2_nat_abs)
  have d: "power_depth n = Suc (power_depth m)"
    using "1.prems" by (simp add: power_depth.simps [of n] m_def)
  show ?case
  proof (cases "m = 0")
    case True
    then have "\<bar>n\<bar> = 1" using m_abs "1.prems" by linarith
    with True d show ?thesis by (simp add: power_depth.simps [of 0])
  next
    case False
    with "1.IH" "1.prems" have IH: "2 ^ (power_depth m - 1) \<le> \<bar>m\<bar> \<and> \<bar>m\<bar> < 2 ^ power_depth m"
      by (simp add: m_def)
    have pos: "0 < power_depth m"
      using False by (simp add: power_depth.simps [of m])
    have "2 * \<bar>m\<bar> \<le> \<bar>n\<bar> \<and> \<bar>n\<bar> \<le> 2 * \<bar>m\<bar> + 1"
      using m_abs by linarith
    with IH pos d show ?thesis
      by (cases "power_depth m") auto
  qed
qed

theorem power_depth_log_witness:
  "(- 2147483648 :: int) \<noteq> 0 \<and> power_depth (- 2147483648) = 32 \<and>
   2 ^ (power_depth (- 2147483648) - 1) \<le> \<bar>- 2147483648 :: int\<bar> \<and> \<bar>- 2147483648 :: int\<bar> < 2 ^ power_depth (- 2147483648)"
proof -
  have "power_depth (- 2147483648) = 32"
    by (code_simp)
  then show ?thesis using power_depth_log [of "- 2147483648"] by simp
qed
text \<open>C22. The recursion of \<open>power\<close> terminates on every input: its recursion relation
  (a call on \<open>n \<noteq> 0\<close> makes one call on \<open>n / 2\<close>) is well-founded, every \<open>(x, n)\<close>
  is in the domain of \<open>power\<close>, and the nesting depth \<open>power_depth\<close> is a variant
  that drops by one at every recursive call.\<close>

theorem power_Complex_terminates:
  "wfP power_Complex_rel \<and> power_Complex_dom (x, n) \<and>
   (\<forall>y m. power_Complex_rel (y, m) (x, n) \<longrightarrow> Suc (power_depth m) = power_depth n)"
proof -
  have wf: "wfP power_Complex_rel"
    unfolding wfp_def
    by (rule wf_subset [OF wf_measure]) (auto dest: power_Complex_rel_measure)
  then have "power_Complex_dom (x, n)"
    by (rule accp_wfpD)
  moreover have "\<forall>y m. power_Complex_rel (y, m) (x, n) \<longrightarrow> Suc (power_depth m) = power_depth n"
    by (auto elim!: power_Complex_rel.cases simp: power_depth.simps [of n])
  ultimately show ?thesis using wf by blast
qed

theorem power_Complex_terminates_witness:
  "wfP power_Complex_rel \<and> power_Complex_dom (Complex_new 1 (0 :: real), 5) \<and>
   power_Complex_rel (Complex_new 1 (0 :: real), 2) (Complex_new 1 0, 5) \<and>
   Suc (power_depth 2) = power_depth 5"
proof -
  have rel: "power_Complex_rel (Complex_new 1 (0 :: real), 2) (Complex_new 1 0, 5)"
    using power_Complex_rel.intros [of 5 "Complex_new 1 (0 :: real)"]
    by (simp add: signed_divide_int_def)
  then show ?thesis
    using power_Complex_terminates [of "Complex_new 1 (0 :: real)" 5] by blast
qed

end
