(* ===== verification/Cx_Refine.thy ===== *)
theory Cx_Refine
  imports Cx_Polar Cx_Power
begin

text \<open>
  Refinement of \<^verbatim>\<open>Complex<double>\<close> by HOL's complex numbers: the abstraction
  \<open>abs_Complex\<close> reads the two fields as \<open>Complex (m_real z) (m_img z)\<close>, and
  every operation of the class is shown to implement the corresponding operation of
  \<open>complex\<close> (\<open>+\<close>, \<open>-\<close>, \<open>*\<close>, \<open>/\<close>, \<open>cnj\<close>, \<open>cmod\<close>, \<open>Arg\<close>, \<open>^\<close>),
  the division with its error exactly on the zero divisor. This is the contract
  of the class; the floating-point instance approximates it.
\<close>

definition abs_Complex :: "real Complex \<Rightarrow> complex" where
  "abs_Complex z = Complex (m_real z) (m_img z)"

subsection \<open>Shared facts\<close>

lemma abs_Complex_new [simp]: "abs_Complex (Complex_new a b) = Complex a b"
  by (simp add: abs_Complex_def)

lemma abs_Complex_Re_Im [simp]: "Re (abs_Complex z) = m_real z" "Im (abs_Complex z) = m_img z"
  by (simp_all add: abs_Complex_def)

lemma abs_Complex_inject: "abs_Complex z = abs_Complex w \<longleftrightarrow> z = w"
  by (simp add: complex_eq_iff Complex_eq_iff)

lemma abs_Complex_eq_0: "abs_Complex z = 0 \<longleftrightarrow> m_real z = 0 \<and> m_img z = 0"
  by (simp add: complex_eq_iff)

lemma abs_operator_mul: "abs_Complex (operator_mul a b) = abs_Complex a * abs_Complex b"
  by (simp add: complex_eq_iff operator_mul_def)

lemma Complex_mod_cmod: "Complex_mod z = cmod (abs_Complex z)"
  by (simp add: Complex_mod_def abs_Complex_def complex_norm)

lemma getPhase_Arg: "getPhase z = Arg (abs_Complex z)"
  by (simp add: getPhase_def abs_Complex_def atan2_Arg)

lemma operator_div_abs:
  "map_sum id abs_Complex (operator_div a c) =
     (if abs_Complex c = 0 then Inl Division_by_zero else Inr (abs_Complex a / abs_Complex c))"
proof (cases "m_real c = 0 \<and> m_img c = 0")
  case True
  then show ?thesis by (simp add: operator_div_def abs_Complex_eq_0)
next
  case False
  then show ?thesis
    by (simp add: operator_div_nonzero abs_Complex_eq_0 complex_eq_iff Re_divide Im_divide
        power2_eq_square add_divide_distrib diff_divide_distrib)
qed

lemma operator_div_Inr_abs:
  "operator_div a c = Inr q \<Longrightarrow> abs_Complex q = abs_Complex a / abs_Complex c"
  using operator_div_abs [of a c] by (auto split: if_splits)

lemma abs_power_Complex: "abs_Complex (power_Complex x n) = abs_Complex x ^ nat \<bar>n\<bar>"
proof (induction x n rule: power_Complex.induct)
  case (1 x n)
  show ?case
  proof (cases "n = 0")
    case True
    then show ?thesis by (simp add: complex_eq_iff)
  next
    case False
    with "1.IH" have IH: "abs_Complex (power_Complex x (n sdiv 2)) = abs_Complex x ^ nat \<bar>n sdiv 2\<bar>"
      by simp
    have "abs_Complex x ^ nat \<bar>n\<bar> =
            abs_Complex x ^ nat \<bar>n sdiv 2\<bar> * abs_Complex x ^ nat \<bar>n sdiv 2\<bar> *
            abs_Complex x ^ (if n smod 2 = 0 then 0 else 1)"
      by (subst nat_abs_split2) (simp add: power_add power_mult_distrib mult_2 )
    with False IH show ?thesis
      by (simp add: power_Complex_step abs_operator_mul algebra_simps)
  qed
qed

lemma getPhase_cis: "z \<noteq> Complex_new 0 0 \<Longrightarrow> cis (getPhase z) = sgn (abs_Complex z)"
  by (simp add: getPhase_Arg cis_Arg abs_Complex_eq_0 Complex_eq_iff)

text \<open>Phases with the same \<open>cis\<close> differ by a whole multiple of \<open>2 pi\<close>.\<close>

lemma cis_eq_2pi: "cis a = cis b \<Longrightarrow> \<exists>k::int. a = b + 2 * pi * k"
proof -
  assume "cis a = cis b"
  then have "sin a = sin b \<and> cos a = cos b" by (simp add: complex_eq_iff)
  then show ?thesis by (simp add: sin_cos_eq_iff)
qed

subsection \<open>Refinement theorems\<close>

text \<open>C1. Complex division implements the division of \<open>complex\<close>: it throws
  exactly on a zero divisor and otherwise returns the quotient; the same for the
  division by a scalar.\<close>

theorem operator_div_refines:
  "map_sum id abs_Complex (operator_div a c) =
     (if abs_Complex c = 0 then Inl Division_by_zero else Inr (abs_Complex a / abs_Complex c)) \<and>
   map_sum id abs_Complex (operator_div_scalar a x) =
     (if x = 0 then Inl Division_by_zero else Inr (abs_Complex a / of_real x))"
  by (simp add: operator_div_abs operator_div_scalar_def complex_eq_iff)

text \<open>C5. \<open>power(x, n)\<close> is the complex power \<open>x ^ |n|\<close>, and its modulus is
  \<open>mod(x) ^ |n|\<close>.\<close>

theorem power_refines:
  "abs_Complex (power_Complex x n) = abs_Complex x ^ nat \<bar>n\<bar> \<and>
   Complex_mod (power_Complex x n) = Complex_mod x ^ nat \<bar>n\<bar>"
  by (simp add: abs_power_Complex Complex_mod_cmod norm_power)

text \<open>C9. Addition, subtraction and multiplication, against a complex value or a
  scalar, and conjugation implement the operations of \<open>complex\<close>.\<close>

theorem ring_ops_refine:
  "abs_Complex (operator_add a b) = abs_Complex a + abs_Complex b \<and>
   abs_Complex (operator_add_scalar a x) = abs_Complex a + of_real x \<and>
   abs_Complex (operator_sub a b) = abs_Complex a - abs_Complex b \<and>
   abs_Complex (operator_sub_scalar a x) = abs_Complex a - of_real x \<and>
   abs_Complex (operator_mul a b) = abs_Complex a * abs_Complex b \<and>
   abs_Complex (operator_mul_scalar a x) = abs_Complex a * of_real x \<and>
   abs_Complex (conjugate a c) = cnj (abs_Complex a)"
  by (simp add: abs_operator_mul complex_eq_iff cx_ops)

text \<open>C10. \<open>mod()\<close> is the complex modulus \<open>cmod\<close> and \<open>getPhase()\<close> the
  principal argument \<open>Arg\<close>.\<close>

theorem polar_refines: "Complex_mod z = cmod (abs_Complex z) \<and> getPhase z = Arg (abs_Complex z)"
  by (simp add: Complex_mod_cmod getPhase_Arg)

text \<open>C19. The phase of a product of non-zero values is the sum of the phases,
  up to a whole multiple of \<open>2 pi\<close>.\<close>

theorem getPhase_mul:
  assumes "a \<noteq> Complex_new 0 0" and "b \<noteq> Complex_new 0 0"
  shows "\<exists>k::int. getPhase (operator_mul a b) = getPhase a + getPhase b + 2 * pi * k"
proof -
  have ab: "operator_mul a b \<noteq> Complex_new 0 0"
    using assms by (metis abs_Complex_eq_0 abs_operator_mul mult_eq_0_iff Complex_eq_iff Complex_new_sel)
  have "cis (getPhase (operator_mul a b)) = cis (getPhase a + getPhase b)"
    using assms ab by (simp add: getPhase_cis abs_operator_mul sgn_mult cis_mult [symmetric])
  then show ?thesis by (rule cis_eq_2pi)
qed

theorem getPhase_mul_witness:
  "Complex_new 0 1 \<noteq> Complex_new 0 (0::real) \<and>
   (\<exists>k::int. getPhase (operator_mul (Complex_new 0 1) (Complex_new 0 1)) =
              getPhase (Complex_new 0 1) + getPhase (Complex_new 0 (1::real)) + 2 * pi * k)"
  using getPhase_mul [of "Complex_new 0 1" "Complex_new 0 1"] by simp

text \<open>C21. When \<open>a / c\<close> returns a non-zero quotient \<open>q\<close>, the phase of \<open>q\<close> is the
  phase of \<open>a\<close> minus the phase of \<open>c\<close>, up to a whole multiple of \<open>2 pi\<close>.\<close>

theorem getPhase_div:
  assumes "operator_div a c = Inr q" and "q \<noteq> Complex_new 0 0"
  shows "\<exists>k::int. getPhase q = getPhase a - getPhase c + 2 * pi * k"
proof -
  have q: "abs_Complex q = abs_Complex a / abs_Complex c"
    using assms(1) by (rule operator_div_Inr_abs)
  have c: "c \<noteq> Complex_new 0 0"
    using assms(1) by (auto simp: operator_div_def Complex_eq_iff)
  have a: "a \<noteq> Complex_new 0 0"
  proof
    assume "a = Complex_new 0 0"
    then have "abs_Complex a = 0" by (simp add: complex_eq_iff)
    with q have "abs_Complex q = 0" by simp
    with assms(2) show False by (simp add: abs_Complex_eq_0 Complex_eq_iff)
  qed
  have "cis (getPhase q) = cis (getPhase a - getPhase c)"
    using a c assms(2) q by (simp add: getPhase_cis sgn_divide cis_divide [symmetric])
  then show ?thesis by (rule cis_eq_2pi)
qed

theorem getPhase_div_witness:
  "operator_div (Complex_new 0 1) (Complex_new 1 1) = Inr (Complex_new (1/2) (1/2 :: real)) \<and>
   Complex_new (1/2) (1/2) \<noteq> Complex_new 0 (0 :: real) \<and>
   (\<exists>k::int. getPhase (Complex_new (1/2) (1/2)) =
              getPhase (Complex_new 0 1) - getPhase (Complex_new 1 (1 :: real)) + 2 * pi * k)"
proof -
  have d: "operator_div (Complex_new 0 1) (Complex_new 1 1) = Inr (Complex_new (1/2) (1/2 :: real))"
    by (simp add: operator_div_def Let_def)
  have nz: "Complex_new (1/2) (1/2) \<noteq> Complex_new 0 (0 :: real)"
    by simp
  show ?thesis using d nz getPhase_div [OF d nz] by simp
qed
end
