(* ===== verification/Cx_Format.thy ===== *)
theory Cx_Format
  imports Cx_Prelude "HOL-Library.Log_Nat"
begin

text \<open>
  The text that \<^verbatim>\<open>std::ostream\<close> writes for a \<^verbatim>\<open>double\<close> under its default
  flags: \<^verbatim>\<open>num_put\<close> formats it as \<^verbatim>\<open>printf("%g")\<close> with the stream's default
  precision 6 (C17 7.21.6.1). With \<open>X\<close> the decimal exponent of the value rounded to
  six significant digits, the style is \<^verbatim>\<open>%f\<close> with \<open>5 - X\<close> decimals when
  \<open>-4 \<le> X < 6\<close> and \<^verbatim>\<open>%e\<close> with five decimals otherwise; trailing zeros of
  the fraction are removed, and the point with them when no fraction is left. Rounding is
  to nearest with ties to even, on the exact value. \<open>read_double\<close> is a reader of this
  output (the subset of \<^verbatim>\<open>strtod\<close> syntax that \<^verbatim>\<open>%g\<close> produces), and
  \<open>printed_value\<close> the number the text denotes: the lemmas show that the text reads
  back as \<open>printed_value x\<close>, which is within \<open>|x| / 200000\<close> of \<open>x\<close> and equal
  to \<open>x\<close> when \<open>x\<close> has at most six significant digits. This is library code, not
  code of the repository.
\<close>

subsection \<open>Decimal digits\<close>

definition digit_char :: "nat \<Rightarrow> char" where
  "digit_char d = char_of (48 + d)"

fun nat_digits :: "nat \<Rightarrow> nat list" where
  "nat_digits n = (if n < 10 then [n] else nat_digits (n div 10) @ [n mod 10])"

definition digits_val :: "nat list \<Rightarrow> nat" where
  "digits_val ds = foldl (\<lambda>a d. 10 * a + d) 0 ds"

text \<open>The digits of \<open>n\<close>, with leading zeros up to \<open>k\<close> digits.\<close>

definition pad_digits :: "nat \<Rightarrow> nat \<Rightarrow> nat list" where
  "pad_digits k n = replicate (k - length (nat_digits n)) 0 @ nat_digits n"

definition strip_zeros :: "nat list \<Rightarrow> nat list" where
  "strip_zeros ds = rev (dropWhile (\<lambda>d. d = 0) (rev ds))"

subsection \<open>Rounding to six significant digits\<close>

definition round_half_even :: "real \<Rightarrow> int" where
  "round_half_even y =
     (let f = \<lfloor>y\<rfloor>; r = y - of_int f in
      if r < 1 / 2 then f else if 1 / 2 < r then f + 1 else if even f then f else f + 1)"

text \<open>The decimal exponent \<open>e\<close> with \<open>10 ^ e \<le> |x| < 10 ^ (e + 1)\<close>, for \<open>x \<noteq> 0\<close>.\<close>

definition dec_exp :: "real \<Rightarrow> int" where
  "dec_exp x =
     (if 1 \<le> \<bar>x\<bar> then int (floorlog 10 (nat \<lfloor>\<bar>x\<bar>\<rfloor>)) - 1
      else - int (floorlog 10 (nat \<lceil>1 / \<bar>x\<bar>\<rceil> - 1)))"

text \<open>The six significant digits \<open>m\<close> of \<open>|x|\<close> and the exponent \<open>X\<close> of the
  \<^verbatim>\<open>%e\<close> style, so that \<open>|x|\<close> prints as \<open>m * 10 ^ (X - 5)\<close>.\<close>

definition sig_round :: "real \<Rightarrow> nat \<times> int" where
  "sig_round x =
     (let e = dec_exp x; m = nat (round_half_even (\<bar>x\<bar> / 10 powi (e - 5)))
      in if m = 10 ^ 6 then (10 ^ 5, e + 1) else (m, e))"

subsection \<open>The two styles and \<^verbatim>\<open>%g\<close>\<close>

text \<open>\<^verbatim>\<open>%f\<close>: the integer \<open>m\<close> read with \<open>p\<close> decimals.\<close>

definition fmt_fixed :: "nat \<Rightarrow> nat \<Rightarrow> string" where
  "fmt_fixed p m =
     (let ds = pad_digits (p + 1) m; k = length ds - p; fp = strip_zeros (drop k ds)
      in map digit_char (take k ds) @ (if fp = [] then [] else CHR ''.'' # map digit_char fp))"

text \<open>\<^verbatim>\<open>%e\<close>: one digit, the fraction, and an exponent of at least two digits.\<close>

definition fmt_sci :: "nat \<Rightarrow> int \<Rightarrow> string" where
  "fmt_sci m X =
     (let ds = nat_digits m; fp = strip_zeros (tl ds)
      in digit_char (hd ds) # (if fp = [] then [] else CHR ''.'' # map digit_char fp) @
         CHR ''e'' # (if X < 0 then CHR ''-'' else CHR ''+'') # map digit_char (pad_digits 2 (nat \<bar>X\<bar>)))"

definition fmt_double :: "real \<Rightarrow> string" where
  "fmt_double x =
     (if x = 0 then ''0''
      else (if x < 0 then ''-'' else []) @
        (case sig_round x of (m, X) \<Rightarrow>
           if -4 \<le> X \<and> X < 6 then fmt_fixed (nat (5 - X)) m else fmt_sci m X))"

subsection \<open>Reading the text back\<close>

definition is_digit :: "char \<Rightarrow> bool" where
  "is_digit c = (48 \<le> (of_char c :: nat) \<and> (of_char c :: nat) \<le> 57)"

definition char_digit :: "char \<Rightarrow> nat" where
  "char_digit c = of_char c - 48"

definition read_digits :: "string \<Rightarrow> nat list \<times> string" where
  "read_digits s = (map char_digit (takeWhile is_digit s), dropWhile is_digit s)"

fun read_frac :: "string \<Rightarrow> (nat list \<times> string) option" where
  "read_frac [] = Some ([], [])"
| "read_frac (c # s) =
     (if c = CHR ''.'' then (case read_digits s of (fp, r) \<Rightarrow> if fp = [] then None else Some (fp, r))
      else Some ([], c # s))"

fun read_exp :: "string \<Rightarrow> int option" where
  "read_exp [] = Some 0"
| "read_exp [c] = None"
| "read_exp (c # sg # s) =
     (case read_digits s of (ds, r) \<Rightarrow>
        if c \<noteq> CHR ''e'' \<or> ds = [] \<or> r \<noteq> [] then None
        else if sg = CHR ''+'' then Some (int (digits_val ds))
        else if sg = CHR ''-'' then Some (- int (digits_val ds))
        else None)"

definition read_unsigned :: "string \<Rightarrow> real option" where
  "read_unsigned s =
     (case read_digits s of (ip, r) \<Rightarrow>
        if ip = [] then None
        else case read_frac r of None \<Rightarrow> None | Some (fp, r') \<Rightarrow>
          case read_exp r' of None \<Rightarrow> None | Some X \<Rightarrow>
            Some ((of_nat (digits_val ip) + of_nat (digits_val fp) / 10 ^ length fp) * 10 powi X))"

fun read_double :: "string \<Rightarrow> real option" where
  "read_double [] = None"
| "read_double (c # s) =
     (if c = CHR ''-'' then map_option uminus (read_unsigned s) else read_unsigned (c # s))"

text \<open>The number that the text printed for \<open>x\<close> denotes: \<open>x\<close> rounded to six
  significant digits.\<close>

definition printed_value :: "real \<Rightarrow> real" where
  "printed_value x =
     (if x = 0 then 0 else sgn x * (case sig_round x of (m, X) \<Rightarrow> of_nat m * 10 powi (X - 5)))"

subsection \<open>Digit lists\<close>

declare nat_digits.simps [simp del]

lemma nat_digits_lt: "d \<in> set (nat_digits n) \<Longrightarrow> d < 10"
  by (induction n rule: nat_digits.induct) (subst (asm) nat_digits.simps, auto split: if_splits)

lemma nat_digits_ne [simp]: "nat_digits n \<noteq> []"
  by (subst nat_digits.simps) simp

lemma digits_val_append:
  "digits_val (xs @ ys) = digits_val xs * 10 ^ length ys + digits_val ys"
proof (induction ys rule: rev_induct)
  case Nil
  then show ?case by (simp add: digits_val_def)
next
  case (snoc y ys)
  then show ?case by (simp add: digits_val_def algebra_simps del: append_assoc add: append_assoc [symmetric])
qed

lemma digits_val_Nil [simp]: "digits_val [] = 0"
  and digits_val_single [simp]: "digits_val [d] = d"
  by (simp_all add: digits_val_def)

lemma digits_val_replicate_0 [simp]: "digits_val (replicate k 0 @ ys) = digits_val ys"
  by (induction k) (simp_all add: digits_val_def)

lemma digits_val_nat_digits [simp]: "digits_val (nat_digits n) = n"
  by (induction n rule: nat_digits.induct) (subst nat_digits.simps, simp add: digits_val_append)

lemma length_nat_digits_le: "0 < k \<Longrightarrow> length (nat_digits n) \<le> k \<longleftrightarrow> n < 10 ^ k"
proof (induction n arbitrary: k rule: nat_digits.induct)
  case (1 n)
  show ?case
  proof (cases "n < 10")
    case True
    then show ?thesis using 1(2) by (subst nat_digits.simps) (simp add: order_less_le_trans [OF _ self_le_power[of 10 k]])
  next
    case False
    then obtain k' where k: "k = Suc k'" using 1(2) by (cases k) auto
    show ?thesis
    proof (cases "k' = 0")
      case True
      then show ?thesis using False k by (subst nat_digits.simps) simp
    next
      case False
      with 1(1) \<open>\<not> n < 10\<close> have "length (nat_digits (n div 10)) \<le> k' \<longleftrightarrow> n div 10 < 10 ^ k'" by simp
      then show ?thesis using \<open>\<not> n < 10\<close> k by (subst nat_digits.simps) (auto simp: less_mult_imp_div_less div_less_iff_less_mult mult.commute)
    qed
  qed
qed


lemma strip_zeros_append: "\<exists>j. ds = strip_zeros ds @ replicate j 0"
proof -
  have "\<exists>j. rev ds = replicate j 0 @ dropWhile (\<lambda>d. d = 0) (rev ds)"
  proof (induction "rev ds" arbitrary: ds)
    case Nil then show ?case by simp
  next
    case (Cons a xs)
    from Cons(1) [of "rev xs"] obtain j where "xs = replicate j 0 @ dropWhile (\<lambda>d. d = 0) xs" by auto
    with Cons(2) [symmetric] show ?case by (cases "a = 0") (auto intro: exI [of _ "Suc j"] exI [of _ 0])
  qed
  then obtain j where "rev ds = replicate j 0 @ dropWhile (\<lambda>d. d = 0) (rev ds)" ..
  then have "ds = rev (dropWhile (\<lambda>d. d = 0) (rev ds)) @ replicate j 0"
    by (metis rev_append rev_replicate rev_rev_ident)
  then show ?thesis unfolding strip_zeros_def ..
qed

lemma strip_zeros_subset: "set (strip_zeros ds) \<subseteq> set ds"
  by (auto simp: strip_zeros_def dest: set_dropWhileD)

lemma frac_val_strip_zeros:
  "(of_nat (digits_val (strip_zeros ds)) :: real) / 10 ^ length (strip_zeros ds) =
   of_nat (digits_val ds) / 10 ^ length ds"
proof -
  obtain j where ds: "ds = strip_zeros ds @ replicate j 0" using strip_zeros_append ..
  have "digits_val ds = digits_val (strip_zeros ds) * 10 ^ j"
    by (subst ds) (simp add: digits_val_append digits_val_replicate_0 [of j "[]", simplified])
  moreover have "length ds = length (strip_zeros ds) + j"
    by (subst ds) simp
  ultimately show ?thesis by (simp add: power_add)
qed

lemma digit_char_is_digit [simp]: "d < 10 \<Longrightarrow> is_digit (digit_char d)"
  and char_digit_digit_char [simp]: "d < 10 \<Longrightarrow> char_digit (digit_char d) = d"
  by (simp_all add: is_digit_def char_digit_def digit_char_def)

lemma read_digits_digits:
  assumes "\<forall>d \<in> set ds. d < 10" and "r = [] \<or> \<not> is_digit (hd r)"
  shows "read_digits (map digit_char ds @ r) = (ds, r)"
proof -
  have all: "\<And>c. c \<in> set (map digit_char ds) \<Longrightarrow> is_digit c"
    using assms(1) by auto
  have r: "takeWhile is_digit r = [] \<and> dropWhile is_digit r = r"
    using assms(2) by (cases r) auto
  have "takeWhile is_digit (map digit_char ds @ r) = map digit_char ds"
    using takeWhile_append2 [of "map digit_char ds" is_digit r] all r by simp
  moreover have "dropWhile is_digit (map digit_char ds @ r) = r"
    using dropWhile_append2 [of "map digit_char ds" is_digit r] all r by simp
  moreover have "map char_digit (map digit_char ds) = ds"
    using assms(1) by (induction ds) auto
  ultimately show ?thesis by (simp add: read_digits_def)
qed

lemma not_is_digit [simp]:
  "\<not> is_digit CHR ''.''" "\<not> is_digit CHR ''e''" "\<not> is_digit CHR ''-''" "\<not> is_digit CHR ''+''"
  by (simp_all add: is_digit_def)


lemma pad_digits_lt: "d \<in> set (pad_digits k n) \<Longrightarrow> d < 10"
  and digits_val_pad_digits [simp]: "digits_val (pad_digits k n) = n"
  and length_pad_digits: "k \<le> length (pad_digits k n)"
  and pad_digits_ne [simp]: "pad_digits k n \<noteq> []"
  by (auto simp: pad_digits_def dest: nat_digits_lt)

text \<open>The fraction of a printed number, read after its integer digits.\<close>

lemma read_frac_text:
  assumes "\<forall>d \<in> set fp. d < 10" and "r = [] \<or> \<not> is_digit (hd r)"
  shows "read_frac ((if fp = [] then [] else CHR ''.'' # map digit_char fp) @ r) =
         (if fp = [] then read_frac r else Some (fp, r))"
  using assms by (auto simp: read_digits_digits)

lemma read_unsigned_text:
  assumes "ip \<noteq> []" "\<forall>d \<in> set ip. d < 10" "\<forall>d \<in> set fp. d < 10"
    and "r = [] \<or> hd r = CHR ''e''" "read_exp r = Some X"
  shows "read_unsigned (map digit_char ip @ (if fp = [] then [] else CHR ''.'' # map digit_char fp) @ r) =
         Some ((of_nat (digits_val ip) + of_nat (digits_val fp) / 10 ^ length fp) * 10 powi X)"
proof -
  let ?t = "(if fp = [] then [] else CHR ''.'' # map digit_char fp) @ r"
  have hd: "?t = [] \<or> \<not> is_digit (hd ?t)"
    using assms(4) by (cases fp) auto
  have fr: "read_frac ?t = Some (fp, r)"
    using assms(3,4) read_digits_digits [of fp "[]"] by (cases r) (auto simp: read_frac_text)
  show ?thesis
    using assms(1,2,5) by (simp add: read_unsigned_def read_digits_digits [OF assms(2) hd] fr)
qed

lemma fmt_fixed_read: "read_unsigned (fmt_fixed p m) = Some (of_nat m / 10 ^ p)"
proof -
  define ds where "ds = pad_digits (p + 1) m"
  define k where "k = length ds - p"
  have lt: "\<forall>d \<in> set ds. d < 10" by (auto simp: ds_def dest: pad_digits_lt)
  have k: "0 < k" "length (drop k ds) = p"
    using length_pad_digits [of "p + 1" m] by (auto simp: k_def ds_def)
  have ip: "take k ds \<noteq> []" "\<forall>d \<in> set (take k ds). d < 10"
    using k lt length_pad_digits [of "p + 1" m] by (auto simp: ds_def dest: in_set_takeD)
  have fp: "\<forall>d \<in> set (strip_zeros (drop k ds)). d < 10"
    using lt strip_zeros_subset by (blast dest: in_set_dropD)
  have "m = digits_val (take k ds) * 10 ^ p + digits_val (drop k ds)"
    using digits_val_append [of "take k ds" "drop k ds"] k by (simp add: ds_def)
  then have "(of_nat m :: real) / 10 ^ p =
      of_nat (digits_val (take k ds)) + of_nat (digits_val (drop k ds)) / 10 ^ length (drop k ds)"
    using k by (simp add: field_simps)
  then show ?thesis
    unfolding fmt_fixed_def Let_def ds_def [symmetric] k_def [symmetric]
    using read_unsigned_text [OF ip fp, of "[]" 0] by (simp add: frac_val_strip_zeros)
qed


lemma read_exp_text:
  "read_exp (CHR ''e'' # (if X < 0 then CHR ''-'' else CHR ''+'') # map digit_char (pad_digits 2 (nat \<bar>X\<bar>))) =
   Some X"
proof -
  have "\<forall>d \<in> set (pad_digits 2 (nat \<bar>X\<bar>)). d < 10" by (auto dest: pad_digits_lt)
  then show ?thesis
    using read_digits_digits [of "pad_digits 2 (nat \<bar>X\<bar>)" "[]"] by auto
qed

lemma fmt_sci_read:
  "read_unsigned (fmt_sci m X) = Some (of_nat m / 10 ^ (length (nat_digits m) - 1) * 10 powi X)"
proof -
  define ds where "ds = nat_digits m"
  have lt: "\<forall>d \<in> set ds. d < 10" by (auto simp: ds_def dest: nat_digits_lt)
  have ds: "ds = hd ds # tl ds" using nat_digits_ne [of m] by (simp add: ds_def)
  have ip: "[hd ds] \<noteq> []" "\<forall>d \<in> set [hd ds]. d < 10"
    using lt hd_in_set [OF nat_digits_ne [of m]] by (auto simp: ds_def)
  have fp: "\<forall>d \<in> set (strip_zeros (tl ds)). d < 10"
  proof
    fix d assume "d \<in> set (strip_zeros (tl ds))"
    then have "d \<in> set (tl ds)" using strip_zeros_subset by blast
    then have "d \<in> set ds" by (cases ds) auto
    then show "d < 10" using lt by blast
  qed
  have "m = hd ds * 10 ^ length (tl ds) + digits_val (tl ds)"
    using digits_val_append [of "[hd ds]" "tl ds"] ds by (simp add: ds_def)
  then have "(of_nat m :: real) / 10 ^ length (tl ds) =
      of_nat (hd ds) + of_nat (digits_val (tl ds)) / 10 ^ length (tl ds)"
    by (simp add: field_simps)
  then show ?thesis
    unfolding fmt_sci_def Let_def ds_def [symmetric]
    using read_unsigned_text [OF ip fp, of _ X] read_exp_text [of X]
    by (simp add: frac_val_strip_zeros)
qed

subsection \<open>Rounding and exponent\<close>

lemma round_half_even_floor: "\<lfloor>y\<rfloor> \<le> round_half_even y \<and> round_half_even y \<le> \<lfloor>y\<rfloor> + 1"
  by (simp add: round_half_even_def Let_def)

lemma round_half_even_err: "\<bar>of_int (round_half_even y) - y\<bar> \<le> 1 / 2"
  using floor_correct [of y] by (auto simp: round_half_even_def Let_def)

lemma round_half_even_near: "\<bar>y - of_int a\<bar> < 1 / 2 \<Longrightarrow> round_half_even y = a"
proof -
  assume a: "\<bar>y - of_int a\<bar> < 1 / 2"
  have "\<bar>of_int (round_half_even y) - of_int a\<bar> < (1 :: real)"
    using round_half_even_err [of y] a by linarith
  then have "\<bar>round_half_even y - a\<bar> < 1"
    by (metis of_int_abs of_int_diff of_int_less_1_iff)
  then show ?thesis by linarith
qed

lemma round_half_even_of_int [simp]: "round_half_even (of_int k) = k"
  by (rule round_half_even_near) simp

lemma dec_exp_bounds:
  assumes "x \<noteq> 0"
  shows "10 powi dec_exp x \<le> \<bar>x\<bar> \<and> \<bar>x\<bar> < 10 powi (dec_exp x + 1)"
proof (cases "1 \<le> \<bar>x\<bar>")
  case True
  define n where "n = nat \<lfloor>\<bar>x\<bar>\<rfloor>"
  define f where "f = floorlog 10 n"
  have n: "0 < n" "real n \<le> \<bar>x\<bar>" "\<bar>x\<bar> < real n + 1"
    using True by (auto simp: n_def)
  have b: "10 ^ (f - 1) \<le> n" "n < 10 ^ f"
    using floorlog_bounds [of n 10] n(1) by (simp_all add: f_def)
  then have f: "0 < f" using n(1) by (cases f) auto
  have "real (10 ^ (f - 1)) \<le> real n" using b(1) by (simp only: of_nat_le_iff)
  then have "(10::real) ^ (f - 1) \<le> real n" by simp
  then have lo: "10 ^ (f - 1) \<le> \<bar>x\<bar>" using n(2) by linarith
  have "n + 1 \<le> 10 ^ f" using b(2) by simp
  then have "real (n + 1) \<le> real (10 ^ f)" by (simp only: of_nat_le_iff)
  then have "real n + 1 \<le> (10::real) ^ f" by simp
  then have hi: "\<bar>x\<bar> < 10 ^ f" using n(3) by linarith
  have "dec_exp x = int f - 1" using True by (simp add: dec_exp_def n_def f_def)
  moreover have "(10::real) powi (int f - 1) = 10 ^ (f - 1)" using f by (simp add: power_int_def nat_diff_distrib)
  moreover have "(10::real) powi (int f - 1 + 1) = 10 ^ f" by simp
  ultimately show ?thesis using lo hi by simp
next
  case False
  define c where "c = nat \<lceil>1 / \<bar>x\<bar>\<rceil>"
  define f where "f = floorlog 10 (c - 1)"
  have y: "1 < 1 / \<bar>x\<bar>" using False assms by (simp add: field_simps)
  have "2 \<le> \<lceil>1 / \<bar>x\<bar>\<rceil>" using y by (simp add: le_ceiling_iff)
  then have c: "2 \<le> c" "1 / \<bar>x\<bar> \<le> real c" "real c - 1 < 1 / \<bar>x\<bar>"
    using ceiling_correct [of "1 / \<bar>x\<bar>"] by (simp_all add: c_def le_nat_iff)
  have b: "10 ^ (f - 1) \<le> c - 1" "c - 1 < 10 ^ f"
    using floorlog_bounds [of "c - 1" 10] c(1) by (simp_all add: f_def)
  then have f: "0 < f" using c(1) by (cases f) auto
  have "c \<le> 10 ^ f" using b(2) c(1) by linarith
  then have "real c \<le> real (10 ^ f)" by (simp only: of_nat_le_iff)
  then have "real c \<le> (10::real) ^ f" by simp
  then have "1 / \<bar>x\<bar> \<le> 10 ^ f" using c(2) by linarith
  then have lo: "1 / 10 ^ f \<le> \<bar>x\<bar>" using assms by (simp add: field_simps)
  have "10 ^ (f - 1) + 1 \<le> c" using b(1) c(1) by linarith
  then have "real (10 ^ (f - 1) + 1) \<le> real c" by (simp only: of_nat_le_iff)
  then have "(10::real) ^ (f - 1) + 1 \<le> real c" by simp
  then have "10 ^ (f - 1) < 1 / \<bar>x\<bar>" using c(3) by linarith
  then have hi: "\<bar>x\<bar> < 1 / 10 ^ (f - 1)" using assms by (simp add: field_simps)
  have "dec_exp x = - int f" using False by (simp add: dec_exp_def c_def f_def)
  moreover have "(10::real) powi (- int f) = 1 / 10 ^ f" by (simp add: power_int_minus_divide)
  moreover have "(10::real) powi (- int f + 1) = 1 / 10 ^ (f - 1)"
    using f by (simp add: power_int_def nat_diff_distrib power_one_over)
  ultimately show ?thesis using lo hi by simp
qed


lemma dec_exp_unique:
  assumes "10 powi e \<le> \<bar>x\<bar>" "\<bar>x\<bar> < 10 powi (e + 1)"
  shows "dec_exp x = e"
proof -
  have "(0::real) < 10 powi e" by simp
  then have "0 < \<bar>x\<bar>" using assms(1) by linarith
  then have x: "x \<noteq> 0" by simp
  note d = dec_exp_bounds [OF x]
  have "\<not> e + 1 \<le> dec_exp x"
  proof
    assume "e + 1 \<le> dec_exp x"
    then have "(10::real) powi (e + 1) \<le> 10 powi dec_exp x" by (rule power_int_increasing) simp
    then show False using d assms(2) by linarith
  qed
  moreover have "\<not> dec_exp x + 1 \<le> e"
  proof
    assume "dec_exp x + 1 \<le> e"
    then have "(10::real) powi (dec_exp x + 1) \<le> 10 powi e" by (rule power_int_increasing) simp
    then show False using d assms(1) by linarith
  qed
  ultimately show ?thesis by linarith
qed

text \<open>The unrounded significand \<open>|x| / 10 ^ (e - 5)\<close> lies in \<open>[10^5, 10^6)\<close>.\<close>

lemma significand_bounds:
  assumes "x \<noteq> 0"
  shows "10 ^ 5 \<le> \<bar>x\<bar> / 10 powi (dec_exp x - 5) \<and> \<bar>x\<bar> / 10 powi (dec_exp x - 5) < 10 ^ 6"
proof -
  note d = dec_exp_bounds [OF assms]
  have p: "(0::real) < 10 powi (dec_exp x - 5)" by simp
  have "(10::real) powi dec_exp x = 10 ^ 5 * 10 powi (dec_exp x - 5)"
    using power_int_add [of "10::real" 5 "dec_exp x - 5"] by simp
  moreover have "(10::real) powi (dec_exp x + 1) = 10 ^ 6 * 10 powi (dec_exp x - 5)"
    using power_int_add [of "10::real" 6 "dec_exp x - 5"] by (simp add: add.commute)
  ultimately show ?thesis using d p by (simp add: field_simps)
qed

lemma sig_round_spec:
  assumes "x \<noteq> 0" "sig_round x = (m, X)"
  shows "10 ^ 5 \<le> m \<and> m < 10 ^ 6 \<and>
         (of_nat m :: real) * 10 powi (X - 5) = of_int (round_half_even (\<bar>x\<bar> / 10 powi (dec_exp x - 5))) * 10 powi (dec_exp x - 5)"
proof -
  define y where "y = \<bar>x\<bar> / 10 powi (dec_exp x - 5)"
  define r where "r = round_half_even y"
  have y: "10 ^ 5 \<le> y" "y < 10 ^ 6" using significand_bounds [OF assms(1)] by (simp_all add: y_def)
  have "10 ^ 5 \<le> \<lfloor>y\<rfloor>" "\<lfloor>y\<rfloor> < 10 ^ 6"
    using y by (simp_all add: le_floor_iff floor_less_iff)
  then have r: "10 ^ 5 \<le> r" "r \<le> 10 ^ 6"
    using round_half_even_floor [of y] unfolding r_def by linarith+
  show ?thesis
  proof (cases "nat r = 10 ^ 6")
    case True
    then have "r = 10 ^ 6" using r(1) by (simp add: nat_eq_iff)
    moreover have "(10::real) ^ 5 * 10 powi (dec_exp x + 1 - 5) = 10 ^ 6 * 10 powi (dec_exp x - 5)"
      using power_int_add [of "10::real" 1 "dec_exp x - 5"] by (simp add: algebra_simps)
    moreover have "m = 10 ^ 5 \<and> X = dec_exp x + 1"
      using assms(2) True by (simp add: sig_round_def Let_def y_def [symmetric] r_def [symmetric])
    ultimately show ?thesis by (simp add: r_def y_def)
  next
    case False
    then have "nat r < 10 ^ 6" using r by (simp add: nat_less_iff nat_eq_iff)
    then show ?thesis using assms(2) False r
      by (auto simp: sig_round_def Let_def y_def [symmetric] r_def [symmetric] le_nat_iff)
  qed
qed

subsection \<open>What the printed text denotes\<close>

lemma length_nat_digits_6: "10 ^ 5 \<le> m \<Longrightarrow> m < 10 ^ 6 \<Longrightarrow> length (nat_digits m) = 6"
  using length_nat_digits_le [of 6 m] length_nat_digits_le [of 5 m] by simp

lemma read_double_unsigned: "s \<noteq> [] \<Longrightarrow> hd s \<noteq> CHR ''-'' \<Longrightarrow> read_double s = read_unsigned s"
  by (cases s) auto

lemma digit_char_not_minus: "d < 10 \<Longrightarrow> digit_char d \<noteq> CHR ''-''"
proof
  assume "d < 10" "digit_char d = CHR ''-''"
  then have "(of_char (digit_char d) :: nat) = of_char (CHR ''-'')" by simp
  with \<open>d < 10\<close> show False by (simp add: digit_char_def)
qed

lemma fmt_fixed_hd: "fmt_fixed p m \<noteq> [] \<and> hd (fmt_fixed p m) \<noteq> CHR ''-''"
proof -
  define ds where "ds = pad_digits (p + 1) m"
  have "0 < length ds - p" using length_pad_digits [of "p + 1" m] by (simp add: ds_def)
  then obtain d ys where d: "take (length ds - p) ds = d # ys"
    by (cases "take (length ds - p) ds") auto
  then have "d \<in> set ds" by (metis in_set_takeD list.set_intros(1))
  then have "d < 10" by (auto simp: ds_def dest: pad_digits_lt)
  then show ?thesis
    unfolding fmt_fixed_def Let_def ds_def [symmetric] using d digit_char_not_minus [of d] by simp
qed

lemma fmt_sci_hd: "fmt_sci m X \<noteq> [] \<and> hd (fmt_sci m X) \<noteq> CHR ''-''"
  using digit_char_not_minus [OF nat_digits_lt [OF hd_in_set [OF nat_digits_ne [of m]]]]
  by (simp add: fmt_sci_def Let_def)

text \<open>The value that the text printed for \<open>x\<close> denotes.\<close>

lemma fmt_double_read: "read_double (fmt_double x) = Some (printed_value x)"
proof (cases "x = 0")
  case True
  then show ?thesis
    by (simp add: fmt_double_def printed_value_def read_unsigned_def read_digits_def is_digit_def char_digit_def)
next
  case False
  obtain m X where mX: "sig_round x = (m, X)" by fastforce
  note s = sig_round_spec [OF False mX]
  define t where "t = (if -4 \<le> X \<and> X < 6 then fmt_fixed (nat (5 - X)) m else fmt_sci m X)"
  have t: "t \<noteq> [] \<and> hd t \<noteq> CHR ''-''" using fmt_fixed_hd fmt_sci_hd by (simp add: t_def)
  have "read_unsigned t = Some (of_nat m * 10 powi (X - 5))"
  proof (cases "-4 \<le> X \<and> X < 6")
    case True
    then have "(10::real) ^ nat (5 - X) = 1 / 10 powi (X - 5)"
      by (simp add: power_int_def power_one_over)
    moreover have "t = fmt_fixed (nat (5 - X)) m" using True by (simp add: t_def)
    ultimately show ?thesis by (simp add: fmt_fixed_read)
  next
    case False
    have "(10::real) powi X / 10 ^ 5 = 10 powi (X - 5)"
      using power_int_diff [of "10::real" X 5] by simp
    moreover have "length (nat_digits m) = 6" using s by (simp add: length_nat_digits_6)
    moreover have "t = fmt_sci m X" using False by (auto simp: t_def)
    ultimately show ?thesis by (simp add: fmt_sci_read field_simps)
  qed
  then show ?thesis
    using False t read_double_unsigned [of t] read_double_unsigned [of "''-'' @ t"]
    by (cases "x < 0") (auto simp: fmt_double_def printed_value_def mX t_def [symmetric])
qed


lemma printed_value_error: "\<bar>printed_value x - x\<bar> \<le> \<bar>x\<bar> / 200000"
proof (cases "x = 0")
  case True
  then show ?thesis by (simp add: printed_value_def)
next
  case False
  obtain m X where mX: "sig_round x = (m, X)" by fastforce
  define p :: real where "p = 10 powi (dec_exp x - 5)"
  define r where "r = round_half_even (\<bar>x\<bar> / p)"
  have p: "0 < p" by (simp add: p_def)
  have v: "of_nat m * 10 powi (X - 5) = of_int r * p"
    using sig_round_spec [OF False mX] by (simp add: r_def p_def)
  have "\<bar>of_int r - \<bar>x\<bar> / p\<bar> \<le> 1 / 2" unfolding r_def by (rule round_half_even_err)
  then have "\<bar>of_int r * p - \<bar>x\<bar>\<bar> \<le> p / 2"
    using p by (simp add: abs_mult_pos [symmetric] left_diff_distrib field_simps)
  moreover have "p * 10 ^ 5 \<le> \<bar>x\<bar>"
    using dec_exp_bounds [OF False] power_int_add [of "10::real" "dec_exp x - 5" 5] by (simp add: p_def)
  moreover have "sgn x * (of_int r * p) - x = sgn x * (of_int r * p - \<bar>x\<bar>)"
    using False by (cases "0 < x") (simp_all add: algebra_simps)
  then have "\<bar>sgn x * (of_int r * p) - x\<bar> = \<bar>of_int r * p - \<bar>x\<bar>\<bar>"
    using False by (simp add: abs_mult)
  ultimately show ?thesis by (simp add: printed_value_def mX v)
qed

lemma printed_value_exact:
  assumes "x = of_int k * 10 powi j" "\<bar>k\<bar> < 10 ^ 6"
  shows "printed_value x = x"
proof (cases "x = 0")
  case True
  then show ?thesis by (simp add: printed_value_def)
next
  case False
  obtain m X where mX: "sig_round x = (m, X)" by fastforce
  define e where "e = dec_exp x"
  have "\<bar>x\<bar> < 10 ^ 6 * 10 powi j"
    using assms by (simp add: abs_mult)
  then have "\<bar>x\<bar> < 10 powi (j + 6)"
    using power_int_add [of "10::real" j 6] by (simp add: mult.commute)
  then have "\<not> j + 6 \<le> e"
    using dec_exp_bounds [OF False] power_int_increasing [of "j + 6" e "10::real"] by (auto simp: e_def)
  then have d: "0 \<le> j - (e - 5)" by linarith
  define N where "N = \<bar>k\<bar> * 10 ^ nat (j - (e - 5))"
  have "\<bar>x\<bar> / 10 powi (e - 5) = \<bar>of_int k\<bar> * 10 powi (j - (e - 5))"
    using assms(1) by (simp add: abs_mult power_int_diff)
  also have "\<dots> = of_int N"
    using d by (simp add: power_int_nonneg_exp N_def)
  finally have y: "\<bar>x\<bar> / 10 powi (e - 5) = of_int N" .
  then have "of_int (round_half_even (\<bar>x\<bar> / 10 powi (e - 5))) * 10 powi (e - 5) = \<bar>x\<bar>"
    by (simp add: field_simps)
  then have "(of_nat m :: real) * 10 powi (X - 5) = \<bar>x\<bar>"
    using sig_round_spec [OF False mX] by (simp add: e_def)
  then show ?thesis using False by (simp add: printed_value_def mX sgn_mult_abs)
qed

text \<open>The text printed for a positive \<open>x\<close> whose decimal exponent \<open>e\<close> and six
  significant digits \<open>m\<close> are known, with \<open>x\<close> not at a rounding tie.\<close>

lemma fmt_double_digits:
  assumes "0 < x" "10 powi e \<le> x" "x < 10 powi (e + 1)"
    and "\<bar>x / 10 powi (e - 5) - of_nat m\<bar> < 1 / 2" "m < 10 ^ 6"
  shows "fmt_double x = (if -4 \<le> e \<and> e < 6 then fmt_fixed (nat (5 - e)) m else fmt_sci m e)"
proof -
  have e: "dec_exp x = e" using assms(1-3) by (intro dec_exp_unique) simp_all
  have "round_half_even (x / 10 powi (e - 5)) = int m"
    using assms(4) by (intro round_half_even_near) simp
  then have "sig_round x = (m, e)" using assms(1,5) by (simp add: sig_round_def e)
  then show ?thesis using assms(1) by (simp add: fmt_double_def)
qed

text \<open>The equations that evaluate the text of a concrete number.\<close>

lemmas fmt_eval = fmt_fixed_def fmt_sci_def pad_digits_def nat_digits.simps strip_zeros_def
  digit_char_def char_of_def bit_0

end
