(* ===== verification/Cx_Display.thy ===== *)
theory Cx_Display
  imports Cx_Polar Cx_Format
begin

text \<open>
  Output of \<^verbatim>\<open>Complex<double>\<close> (spec 4.4): the enum \<^verbatim>\<open>Display::Mode\<close>,
  the stream inserter \<^verbatim>\<open>operator<<\<close> and \<^verbatim>\<open>display(mode, isRed)\<close>. The
  standard output and error streams are the record \<open>streams\<close> of the items written
  so far; each \<^verbatim>\<open><<\<close> appends one item, a string literal or character as
  \<open>Str\<close>, a number as \<open>Num\<close> with its exact value. \<open>stream_text\<close> is the text
  a stream shows, each number written by \<open>fmt_double\<close> (Cx_Format), and
  \<open>read_Complex\<close> reads back the two lines that \<^verbatim>\<open>operator<<\<close> writes.
  \<open>pi_const\<close> and \<open>tau\<close> are the source's \<^verbatim>\<open>constexpr\<close> constants, with
  their decimal literal.
\<close>

text \<open>\<^verbatim>\<open>constexpr double pi = 3.14159265358979323846; constexpr double tau = 2*pi;\<close>\<close>

definition pi_const :: real where
  "pi_const = 3.14159265358979323846"

definition tau :: real where
  "tau = 2 * pi_const"

datatype Mode = TUPLE | RECT | ANGLE | POLAR | EXP | CART

datatype out_item = Str string | Num real

record streams =
  cout :: "out_item list"
  cerr :: "out_item list"

text \<open>The character \<^verbatim>\<open>'\n'\<close>.\<close>

definition nl :: out_item where
  "nl = Str ''\<newline>''"

text \<open>\<^verbatim>\<open>std::ostream& operator<<(std::ostream& os, const Complex<T>& c)\<close>\<close>

definition operator_out :: "out_item list \<Rightarrow> real Complex \<Rightarrow> out_item list" where
  "operator_out os c = os @ [Str ''Real: '', Num (m_real c), nl, Str ''Img: '', Num (m_img c), nl]"

text \<open>
  \<^verbatim>\<open>void display(const Display::Mode& mode = Display::TUPLE, bool isRed = true) const\<close>:
  one branch per case of the \<^verbatim>\<open>switch\<close>; \<^verbatim>\<open>POLAR\<close> has no case and takes the
  \<^verbatim>\<open>default\<close> branch; the final \<^verbatim>\<open>std::cout << '\n'\<close> follows every branch.
\<close>

definition display :: "real Complex \<Rightarrow> Mode \<Rightarrow> bool \<Rightarrow> streams \<Rightarrow> streams" where
  "display self mode isRed os =
     (let os' =
        (case mode of
           TUPLE \<Rightarrow> os\<lparr>cout := cout os @
              [Str ''('', Num (m_real self), Str '','', Str '' '', Num (m_img self), Str '')'']\<rparr>
         | RECT \<Rightarrow> os\<lparr>cout := cout os @ [Num (m_real self), Str '' + '', Num (m_img self), Str '' i'']\<rparr>
         | ANGLE \<Rightarrow> os\<lparr>cout := cout os @ [Num (Complex_mod self), Str '' L ''] @
              (if isRed then [Num (getPhase self), Str '' rad'']
               else [Num (getPhase self / tau), Str '' deg''])\<rparr>
         | EXP \<Rightarrow> os\<lparr>cout := cout os @
              [Num (Complex_mod self), Str '' e^'', Str ''i '', Num (getPhase self)]\<rparr>
         | CART \<Rightarrow> os\<lparr>cout := cout os @
              [Str ''|z| = '', Num (Complex_mod self), nl, Str ''theta = arg(z) = '',
               Num (getPhase self), Str '' rad'']\<rparr>
         | POLAR \<Rightarrow> os\<lparr>cerr := cerr os @ [Str ''Use a valid Display Mode!'', nl]\<rparr>)
      in os'\<lparr>cout := cout os' @ [nl]\<rparr>)"

text \<open>The text of a stream: \<^verbatim>\<open>std::ostream\<close> writes a number in the
  default \<^verbatim>\<open>%g\<close> format.\<close>

fun item_text :: "out_item \<Rightarrow> string" where
  "item_text (Str s) = s"
| "item_text (Num x) = fmt_double x"

definition stream_text :: "out_item list \<Rightarrow> string" where
  "stream_text os = concat (map item_text os)"

text \<open>A reader of the two lines \<^verbatim>\<open>Real: x\<close> and \<^verbatim>\<open>Img: y\<close> that
  \<^verbatim>\<open>operator<<\<close> writes: a label, a number, a newline.\<close>

definition read_field :: "string \<Rightarrow> string \<Rightarrow> (real \<times> string) option" where
  "read_field label s =
     (if take (length label) s = label then
        (case dropWhile (\<lambda>c. c \<noteq> CHR ''\<newline>'') (drop (length label) s) of
           [] \<Rightarrow> None
         | _ # r \<Rightarrow>
             map_option (\<lambda>v. (v, r)) (read_double (takeWhile (\<lambda>c. c \<noteq> CHR ''\<newline>'') (drop (length label) s))))
      else None)"

definition read_Complex :: "string \<Rightarrow> real Complex option" where
  "read_Complex s =
     (case read_field ''Real: '' s of
        None \<Rightarrow> None
      | Some (a, r) \<Rightarrow> (case read_field ''Img: '' r of Some (b, []) \<Rightarrow> Some (Complex_new a b) | _ \<Rightarrow> None))"

subsection \<open>Shared facts\<close>

lemma tau_gt_6: "6 < tau"
  by (simp add: tau_def pi_const_def)

lemma abs_div_tau_lt_1: "\<bar>g\<bar> < tau \<Longrightarrow> \<bar>g / tau\<bar> < 1"
proof -
  assume g: "\<bar>g\<bar> < tau"
  have t: "0 < tau" using tau_gt_6 by linarith
  then have "\<bar>g / tau\<bar> = \<bar>g\<bar> / tau" by (simp add: abs_divide)
  also have "\<dots> < 1" using g t by (simp add: divide_less_eq)
  finally show ?thesis .
qed

lemma abs_getPhase_le_pi: "\<bar>getPhase z\<bar> \<le> pi"
  using atan2_range [of "m_img z" "m_real z"] by (simp add: getPhase_def abs_le_iff)


lemma fmt_double_chars: "c \<in> set (fmt_double x) \<Longrightarrow> 43 \<le> (of_char c :: nat)"
proof -
  have dc: "\<And>d. d < 10 \<Longrightarrow> 43 \<le> (of_char (digit_char d) :: nat)" by (simp add: digit_char_def)
  have "\<forall>c \<in> set (fmt_fixed p m). 43 \<le> (of_char c :: nat)" for p m
    by (auto simp: fmt_fixed_def Let_def intro!: dc
        dest!: in_set_takeD in_set_dropD strip_zeros_subset [THEN subsetD] pad_digits_lt)
  moreover have "\<forall>c \<in> set (fmt_sci m X). 43 \<le> (of_char c :: nat)" for m X
  proof -
    have "\<forall>d \<in> set (strip_zeros (tl (nat_digits m))). d < 10"
    proof
      fix d assume "d \<in> set (strip_zeros (tl (nat_digits m)))"
      then have "d \<in> set (tl (nat_digits m))" using strip_zeros_subset by blast
      then show "d < 10" by (auto dest: in_set_tlD nat_digits_lt)
    qed
    moreover have "hd (nat_digits m) < 10" by (rule nat_digits_lt [OF hd_in_set [OF nat_digits_ne]])
    ultimately show ?thesis
      by (auto simp: fmt_sci_def Let_def intro!: dc dest!: pad_digits_lt)
  qed
  moreover assume "c \<in> set (fmt_double x)"
  ultimately show ?thesis by (auto simp: fmt_double_def split: prod.splits if_splits)
qed

lemma fmt_double_no_newline: "CHR ''\<newline>'' \<notin> set (fmt_double x)"
  using fmt_double_chars [of "CHR ''\<newline>''" x] by auto

lemma read_field_text:
  assumes "CHR ''\<newline>'' \<notin> set t"
  shows "read_field label (label @ t @ CHR ''\<newline>'' # r) = map_option (\<lambda>v. (v, r)) (read_double t)"
proof -
  have "takeWhile (\<lambda>c. c \<noteq> CHR ''\<newline>'') (t @ CHR ''\<newline>'' # r) = t"
    using assms by (subst takeWhile_append2) auto
  moreover have "dropWhile (\<lambda>c. c \<noteq> CHR ''\<newline>'') (t @ CHR ''\<newline>'' # r) = CHR ''\<newline>'' # r"
    using assms by (subst dropWhile_append2) auto
  ultimately show ?thesis by (simp add: read_field_def)
qed

lemma operator_out_text:
  "stream_text (operator_out [] c) =
     ''Real: '' @ fmt_double (m_real c) @ CHR ''\<newline>'' # ''Img: '' @ fmt_double (m_img c) @ [CHR ''\<newline>'']"
  by (simp add: stream_text_def operator_out_def nl_def)

lemma operator_out_read:
  "read_Complex (stream_text (operator_out [] c)) =
     Some (Complex_new (printed_value (m_real c)) (printed_value (m_img c)))"
  using read_field_text [OF fmt_double_no_newline, of "''Real: ''" "m_real c"]
    read_field_text [OF fmt_double_no_newline, of "''Img: ''" "m_img c" "[]"]
  by (simp add: read_Complex_def operator_out_text fmt_double_read)

lemma fmt_double_5_2: "fmt_double 5 = ''5''" "fmt_double 2 = ''2''"
  by (subst fmt_double_digits [where e = 0 and m = 500000], simp_all add: fmt_eval)
     (subst fmt_double_digits [where e = 0 and m = 200000], simp_all add: fmt_eval)


subsection \<open>Properties of the display\<close>

text \<open>C14. \<^verbatim>\<open>POLAR\<close> is declared but not handled: displaying in that mode
  writes the warning to the error stream and only the newline to the output.\<close>

theorem display_polar_warning:
  "display z POLAR isRed os =
     os\<lparr>cout := cout os @ [nl], cerr := cerr os @ [Str ''Use a valid Display Mode!'', nl]\<rparr>"
  by (simp add: display_def)

text \<open>C15. In \<^verbatim>\<open>ANGLE\<close> mode with \<^verbatim>\<open>isRed = false\<close> the number labelled
  \<^verbatim>\<open>deg\<close> is \<open>getPhase() / tau\<close>, whose magnitude is below one for every value:
  it is not the phase in degrees, which ranges over \<open>(-180, 180]\<close>.\<close>

theorem display_angle_deg_not_degrees:
  "display z ANGLE False os =
     os\<lparr>cout := cout os @ [Num (Complex_mod z), Str '' L '', Num (getPhase z / tau), Str '' deg'', nl]\<rparr> \<and>
   \<bar>getPhase z / tau\<bar> < 1"
proof -
  have "\<bar>getPhase z\<bar> < tau"
    using abs_getPhase_le_pi [of z] pi_less_4 tau_gt_6 by linarith
  then have "\<bar>getPhase z / tau\<bar> < 1"
    by (rule abs_div_tau_lt_1)
  then show ?thesis by (simp add: display_def)
qed

text \<open>C16. Every mode but \<^verbatim>\<open>POLAR\<close> leaves the error stream untouched and
  appends to the output stream, ending with a newline.\<close>

theorem display_valid_mode_output:
  assumes "mode \<noteq> POLAR"
  shows "cerr (display z mode isRed os) = cerr os \<and>
         (\<exists>out. cout (display z mode isRed os) = cout os @ out @ [nl])"
  using assms by (cases mode) (auto simp: display_def)

theorem display_valid_mode_output_witness:
  "TUPLE \<noteq> POLAR \<and> cerr (display (Complex_new 5 2) TUPLE True \<lparr>cout = [], cerr = []\<rparr>) = [] \<and>
   (\<exists>out. cout (display (Complex_new 5 2) TUPLE True \<lparr>cout = [], cerr = []\<rparr>) = [] @ out @ [nl])"
  using display_valid_mode_output [of TUPLE "Complex_new 5 2" True "\<lparr>cout = [], cerr = []\<rparr>"] by simp

text \<open>C25. \<^verbatim>\<open>operator<<\<close> and the reader of its two lines are a round trip on
  every value whose parts have at most six significant digits: the text reads back as
  the value that was written.\<close>

theorem operator_out_roundtrip:
  assumes "m_real c = of_int a * 10 powi i" "\<bar>a\<bar> < 10 ^ 6"
    and "m_img c = of_int b * 10 powi j" "\<bar>b\<bar> < 10 ^ 6"
  shows "read_Complex (stream_text (operator_out [] c)) = Some c"
  using operator_out_read [of c] printed_value_exact [OF assms(1,2)] printed_value_exact [OF assms(3,4)]
  by simp

theorem operator_out_roundtrip_witness:
  "m_real (Complex_new (26 / 5) (- 1 / 4) :: real Complex) = of_int 52 * 10 powi (- 1) \<and> \<bar>52 :: int\<bar> < 10 ^ 6 \<and>
   m_img (Complex_new (26 / 5) (- 1 / 4) :: real Complex) = of_int (- 25) * 10 powi (- 2) \<and> \<bar>- 25 :: int\<bar> < 10 ^ 6 \<and>
   read_Complex (stream_text (operator_out [] (Complex_new (26 / 5) (- 1 / 4)))) =
     Some (Complex_new (26 / 5) (- 1 / 4))"
  using operator_out_roundtrip [of "Complex_new (26 / 5) (- 1 / 4)" 52 "- 1" "- 25" "- 2"] by simp

text \<open>C26. Whatever the value, the text that \<^verbatim>\<open>operator<<\<close> writes reads back,
  and each part read back is within half a unit of the sixth significant digit of the
  part written: a relative error of at most \<open>5 * 10^-6\<close>.\<close>

theorem operator_out_error:
  "\<exists>c'. read_Complex (stream_text (operator_out [] c)) = Some c' \<and>
     \<bar>m_real c' - m_real c\<bar> \<le> \<bar>m_real c\<bar> / 200000 \<and> \<bar>m_img c' - m_img c\<bar> \<le> \<bar>m_img c\<bar> / 200000"
  using operator_out_read [of c] printed_value_error [of "m_real c"] printed_value_error [of "m_img c"]
  by simp

end

