(* ===== verification/Cx_Main.thy ===== *)
theory Cx_Main
  imports Cx_Display
begin

text \<open>
  The program's entry point \<^verbatim>\<open>int main()\<close>: the statements that are not
  commented out, in their order, threading the value of \<open>c1\<close> and the output
  streams; the result is the final streams and the exit code. \<open>c2\<close> is built
  and never used, as in the source. The text the program shows is obtained with
  \<open>stream_text\<close>; the two irrational numbers it prints are pinned to their six
  printed digits by bounds on \<open>sqrt\<close> and on the arctangent series.
\<close>

definition main :: "streams \<Rightarrow> streams \<times> int" where
  "main os0 =
     (let c1 = Complex_new 5 2;
          c2 = Complex_new 4 (5 :: real);
          os1 = display c1 TUPLE True os0;
          c1' = operator_add_assign_scalar c1 5.2;
          os2 = display c1' ANGLE False os1
      in (os2, 0))"

subsection \<open>The numbers printed by the second display\<close>

lemma sqrt_108_04_bounds: "10.39415 < sqrt (2701 / 25) \<and> sqrt (2701 / 25) < 10.39425"
proof
  show "10.39415 < sqrt (2701 / 25)" by (rule real_less_rsqrt) (simp add: power2_eq_square)
  have "sqrt (2701 / 25) < sqrt (10.39425\<^sup>2)" by (rule real_sqrt_less_mono) (simp add: power2_eq_square)
  then show "sqrt (2701 / 25) < 10.39425" by simp
qed

lemma fmt_double_mod: "fmt_double (sqrt (2701 / 25)) = ''10.3942''"
proof -
  have "fmt_double (sqrt (2701 / 25)) = fmt_fixed 4 103942"
    using sqrt_108_04_bounds
    by (subst fmt_double_digits [where e = 1 and m = 103942]) (simp_all only: abs_less_iff, simp_all)
  also have "\<dots> = ''10.3942''" by (simp add: fmt_eval)
  finally show ?thesis .
qed

lemma arctan_10_51_bounds: "0.1936219 < arctan (10 / 51) \<and> arctan (10 / 51) < 0.193622"
  using arctan_leibniz [of "10 / 51" 2] by (simp add: eval_nat_numeral)

lemma fmt_double_phase_deg: "fmt_double (arctan (10 / 51) / tau) = ''0.0308159''"
proof -
  have "fmt_double (arctan (10 / 51) / tau) = fmt_fixed 7 308159"
    using arctan_10_51_bounds unfolding tau_def pi_const_def
    by (subst fmt_double_digits [where e = "-2" and m = 308159]) (simp_all only: abs_less_iff, simp_all)
  also have "\<dots> = ''0.0308159''" by (simp add: fmt_eval)
  finally show ?thesis .
qed

text \<open>C27. The text the program shows: \<^verbatim>\<open>(5, 2)\<close> on the first line and
  \<^verbatim>\<open>10.3942 L 0.0308159 deg\<close> on the second, each number in the stream's default
  six-digit format; the error stream stays empty and the exit code is 0.\<close>

theorem main_text:
  "stream_text (cout (fst (main \<lparr>cout = [], cerr = []\<rparr>))) =
     ''(5, 2)'' @ CHR ''\<newline>'' # ''10.3942 L 0.0308159 deg'' @ [CHR ''\<newline>''] \<and>
   cerr (fst (main \<lparr>cout = [], cerr = []\<rparr>)) = [] \<and> snd (main \<lparr>cout = [], cerr = []\<rparr>) = 0"
  by (simp add: main_def display_def operator_add_assign_scalar_def operator_add_scalar_def
      Complex_mod_def getPhase_def atan2_def power2_eq_square stream_text_def nl_def
      fmt_double_5_2 fmt_double_mod fmt_double_phase_deg)

end
