(* ===== verification/Cx_Session.thy ===== *)
theory Cx_Session
  imports Cx_Arith
begin

text \<open>
  A client of \<^verbatim>\<open>Complex<T>\<close> mutates a variable with the assignment operators of
  lines 87--101 and 141--159 (as the block commented out in \<^verbatim>\<open>main\<close> does:
  \<^verbatim>\<open>c1 += 5; c1 -= 6; c1 *= 7; c1 /= 8;\<close>). This theory is that interface: a
  datatype of the statements, \<open>exec_assign\<close> which runs one of them by calling the
  operator of \<open>Cx_Arith\<close>, and \<open>run_assigns\<close> which runs a sequence the way C++
  does, stopping at the first exception with the variable holding the value it had
  before the throwing statement. The inductive \<open>reach\<close> gives the values reachable
  by statements of a given kind; invariants are proved over it by rule induction.
\<close>

datatype 'a assign_op =
    Assign "'a Complex" | Assign_scalar 'a
  | Add_assign "'a Complex" | Add_assign_scalar 'a
  | Sub_assign "'a Complex" | Sub_assign_scalar 'a
  | Mul_assign "'a Complex" | Mul_assign_scalar 'a
  | Div_assign "'a Complex" | Div_assign_scalar 'a

fun exec_assign :: "'a::field Complex \<Rightarrow> 'a assign_op \<Rightarrow> 'a Complex cx_result" where
  "exec_assign s (Assign c) = Inr (operator_assign s c)"
| "exec_assign s (Assign_scalar x) = Inr (operator_assign_scalar s x)"
| "exec_assign s (Add_assign c) = Inr (operator_add_assign s c)"
| "exec_assign s (Add_assign_scalar x) = Inr (operator_add_assign_scalar s x)"
| "exec_assign s (Sub_assign c) = Inr (operator_sub_assign s c)"
| "exec_assign s (Sub_assign_scalar x) = Inr (operator_sub_assign_scalar s x)"
| "exec_assign s (Mul_assign c) = Inr (operator_mul_assign s c)"
| "exec_assign s (Mul_assign_scalar x) = Inr (operator_mul_assign_scalar s x)"
| "exec_assign s (Div_assign c) = operator_div_assign s c"
| "exec_assign s (Div_assign_scalar x) = operator_div_assign_scalar s x"

fun run_assigns :: "'a::field Complex \<Rightarrow> 'a assign_op list \<Rightarrow> 'a Complex \<times> cx_error option" where
  "run_assigns s [] = (s, None)"
| "run_assigns s (op # ops) =
     (case exec_assign s op of Inl e \<Rightarrow> (s, Some e) | Inr s' \<Rightarrow> run_assigns s' ops)"

text \<open>The divisor of a statement is non-zero (the statement cannot throw).\<close>

fun divisor_nonzero :: "'a::field assign_op \<Rightarrow> bool" where
  "divisor_nonzero (Div_assign c) = (c \<noteq> Complex_new 0 0)"
| "divisor_nonzero (Div_assign_scalar x) = (x \<noteq> 0)"
| "divisor_nonzero _ = True"

text \<open>The operand of a statement lies on the real axis.\<close>

fun real_operand :: "'a::field assign_op \<Rightarrow> bool" where
  "real_operand (Assign c) = (m_img c = 0)"
| "real_operand (Add_assign c) = (m_img c = 0)"
| "real_operand (Sub_assign c) = (m_img c = 0)"
| "real_operand (Mul_assign c) = (m_img c = 0)"
| "real_operand (Div_assign c) = (m_img c = 0)"
| "real_operand _ = True"

text \<open>The operand of a statement is non-zero, and the statement is one that
  keeps a non-zero value non-zero: an assignment, a multiplication or a division.\<close>

fun nonzero_operand :: "'a::field assign_op \<Rightarrow> bool" where
  "nonzero_operand (Assign c) = (c \<noteq> Complex_new 0 0)"
| "nonzero_operand (Assign_scalar x) = (x \<noteq> 0)"
| "nonzero_operand (Mul_assign c) = (c \<noteq> Complex_new 0 0)"
| "nonzero_operand (Mul_assign_scalar x) = (x \<noteq> 0)"
| "nonzero_operand (Div_assign c) = (c \<noteq> Complex_new 0 0)"
| "nonzero_operand (Div_assign_scalar x) = (x \<noteq> 0)"
| "nonzero_operand _ = False"

inductive reach :: "('a::field assign_op \<Rightarrow> bool) \<Rightarrow> 'a Complex \<Rightarrow> 'a Complex \<Rightarrow> bool"
  for P where
  refl: "reach P s s"
| step: "reach P s t \<Longrightarrow> P op \<Longrightarrow> exec_assign t op = Inr u \<Longrightarrow> reach P s u"

code_pred reach .

subsection \<open>Shared facts\<close>

lemma exec_assign_Inl:
  "exec_assign s op = Inl e \<longleftrightarrow>
     e = Division_by_zero \<and> (\<exists>c. op = Div_assign c \<and> c = Complex_new 0 0 \<or> op = Div_assign_scalar 0)"
  by (cases op) (auto simp: operator_div_assign_def operator_div_assign_scalar_def
      operator_div_def operator_div_scalar_def Let_def Complex_eq_iff split: sum.splits)

lemma exec_assign_Inr_iff: "(\<exists>s'. exec_assign s op = Inr s') \<longleftrightarrow> divisor_nonzero op"
proof -
  have "(\<exists>e. exec_assign s op = Inl e) \<longleftrightarrow>
          (\<exists>c. op = Div_assign c \<and> c = Complex_new 0 0 \<or> op = Div_assign_scalar 0)"
    by (simp add: exec_assign_Inl)
  also have "\<dots> \<longleftrightarrow> \<not> divisor_nonzero op"
    by (cases op) auto
  finally show ?thesis by (cases "exec_assign s op") auto
qed

lemma exec_assign_real_axis:
  "m_img s = 0 \<Longrightarrow> real_operand op \<Longrightarrow> exec_assign s op = Inr u \<Longrightarrow> m_img u = 0"
  by (cases op) (auto simp: cx_ops operator_assign_scalar_def operator_add_assign_def
      operator_add_assign_scalar_def operator_sub_assign_def operator_sub_assign_scalar_def
      operator_mul_assign_def operator_mul_assign_scalar_def operator_div_assign_def
      operator_div_assign_scalar_def operator_div_def Let_def split: if_splits sum.splits)

subsection \<open>Properties of statement sequences\<close>

text \<open>C23. A sequence of statements runs to its end without an exception exactly
  when none of its statements divides by zero: the guards of the two divisions are the
  only source of exceptions, and each of them fires on its zero divisor.\<close>

theorem run_assigns_completes:
  "snd (run_assigns s ops) = None \<longleftrightarrow> list_all divisor_nonzero ops"
proof (induction ops arbitrary: s)
  case Nil
  then show ?case by simp
next
  case (Cons op ops)
  show ?case
  proof (cases "exec_assign s op")
    case (Inl e)
    then have "\<not> divisor_nonzero op" using exec_assign_Inr_iff [of s op] by auto
    with Inl show ?thesis by simp
  next
    case (Inr s')
    then have "divisor_nonzero op" using exec_assign_Inr_iff [of s op] by auto
    with Inr Cons.IH [of s'] show ?thesis by simp
  qed
qed

text \<open>C24. A value on the real axis stays on it under every statement whose operand is
  on the real axis: an invariant of the reachable values, by rule induction.\<close>

theorem reach_real_axis:
  assumes "reach real_operand s t" and "m_img s = 0"
  shows "m_img t = 0"
  using assms
proof (induction rule: reach.induct)
  case (refl s)
  then show ?case .
next
  case (step s t op u)
  then show ?case by (blast intro: exec_assign_real_axis)
qed

theorem reach_real_axis_witness:
  "reach real_operand (Complex_new 3 0) (Complex_new 6 (0 :: real)) \<and> m_img (Complex_new 3 (0 :: real)) = 0 \<and>
   m_img (Complex_new 6 (0 :: real)) = 0"
proof -
  have "exec_assign (Complex_new 3 0) (Mul_assign_scalar 2) = Inr (Complex_new 6 (0 :: real))"
    by (simp add: operator_mul_assign_scalar_def operator_mul_scalar_def)
  then have r: "reach real_operand (Complex_new 3 0) (Complex_new 6 (0 :: real))"
    using reach.step [OF reach.refl [of real_operand "Complex_new 3 (0 :: real)"], of "Mul_assign_scalar 2"]
    by simp
  have "m_img (Complex_new 3 (0 :: real)) = 0" by simp
  with r reach_real_axis [OF r] show ?thesis by simp
qed

end
