(* ===== verification/Spec2Isabelle.thy ===== *)
theory Spec2Isabelle
  imports Cx_Refine Cx_Main Cx_Session
begin

text \<open>
  Verification of \<^verbatim>\<open>src/app.cpp\<close> (ComplexNumberCPP): the class template
  \<^verbatim>\<open>Complex<T>\<close>, a complex number over a floating-point scalar type, and the
  \<^verbatim>\<open>main\<close> that exercises it. The class has two fields and no other state;
  its members are pure value operations, the compound assignments replace the
  receiver, the two divisions throw \<^verbatim>\<open>std::invalid_argument\<close>, and
  \<^verbatim>\<open>display\<close> writes to \<^verbatim>\<open>std::cout\<close>/\<^verbatim>\<open>std::cerr\<close>. \<^verbatim>\<open>power\<close> and
  \<^verbatim>\<open>display\<close> call the other members: \<^verbatim>\<open>power\<close> multiplies with
  \<^verbatim>\<open>operator*\<close>, \<^verbatim>\<open>display\<close> prints \<^verbatim>\<open>mod()\<close> and \<^verbatim>\<open>getPhase()\<close>.

  \<^bold>\<open>Theories.\<close> Each models one part of the source, and imports the parts it calls.
  \<^item> \<open>Cx_Prelude\<close>: the exception as \<open>cx_error\<close> (one constructor,
    \<open>Division_by_zero\<close>), the result type \<open>'a cx_result = cx_error + 'a\<close>, the
    collection \<open>cx_ops\<close> of operation equations, and lemmas on C's truncating
    division by two (\<open>sdiv\<close>, \<open>smod\<close>), on lists, on square roots, and the
    Leibniz bounds of the arctangent series.
  \<^item> \<open>Cx_Arith\<close> (lines 26--162): the record \<open>'a Complex\<close> with the fields
    \<open>m_real\<close> and \<open>m_img\<close>, the constructor \<open>Complex_new\<close>, the assignments
    \<open>operator_assign\<close> and \<open>operator_assign_scalar\<close>, the operators
    \<open>operator_add\<close>, \<open>operator_sub\<close>, \<open>operator_mul\<close>, \<open>operator_div\<close> and their
    \<open>_scalar\<close> forms, the compound assignments \<open>operator_add_assign\<close> \<dots>
    \<open>operator_div_assign_scalar\<close>, and \<open>conjugate\<close>. A member takes the receiver
    \<^verbatim>\<open>*this\<close> as its first argument \<open>self\<close>; a mutating member returns the
    receiver's new value; a throwing member returns \<open>Inl Division_by_zero\<close>, and
    then the receiver keeps its old value.
  \<^item> \<open>Cx_Polar\<close> (lines 163--166): \<^verbatim>\<open>mod()\<close> as \<open>Complex_mod\<close>,
    \<^verbatim>\<open>getPhase()\<close> as \<open>getPhase\<close>, and C's \<open>atan2\<close>, written out from the
    C standard because it is a library function and not code of the repository.
  \<^item> \<open>Cx_Power\<close> (lines 168--175): \<^verbatim>\<open>power\<close> as \<open>power_Complex\<close>, a
    \<^theory_text>\<open>function\<close> on an \<open>int\<close> exponent with the measure \<open>nat \<bar>n\<bar>\<close>, and
    the reference \<open>power_ref\<close>, which multiplies repeatedly, and
    \<open>power_depth\<close>, the nesting depth of its recursive calls.
  \<^item> \<open>Cx_Refine\<close>: the abstraction \<open>abs_Complex\<close> onto HOL's \<open>complex\<close> and
    the refinement of every operation.
  \<^item> \<open>Cx_Format\<close>: the standard library's formatting of a \<open>double\<close>, which
    \<^verbatim>\<open>std::ostream\<close> writes as \<^verbatim>\<open>printf("%g")\<close> with precision 6. It is
    written out from the C standard as \<open>fmt_double\<close>, with its two styles
    \<open>fmt_fixed\<close> and \<open>fmt_sci\<close>, rounding \<open>round_half_even\<close> to the six digits
    \<open>sig_round\<close>, and a reader \<open>read_double\<close> of the text it produces.
    \<open>printed_value\<close> is the number the text denotes.
  \<^item> \<open>Cx_Display\<close> (lines 5--22 and 177--212): \<open>pi_const\<close>, \<open>tau\<close>, the enum
    \<open>Mode\<close>, the two output streams as the record \<open>streams\<close> of written items,
    \<^verbatim>\<open>operator<<\<close> as \<open>operator_out\<close>, and \<open>display\<close>. \<open>stream_text\<close>
    is the text a stream shows, and \<open>read_Complex\<close> reads back the two lines of
    \<^verbatim>\<open>operator<<\<close>.
  \<^item> \<open>Cx_Main\<close> (lines 214--242): \<open>main\<close>, the statements that are not
    commented out, in order.
  \<^item> \<open>Cx_Session\<close>: the interface a client uses to mutate a variable. It has the
    datatype \<open>assign_op\<close> of the statements \<^verbatim>\<open>c = ..\<close>, \<^verbatim>\<open>c += ..\<close>, \<dots>,
    \<^verbatim>\<open>c /= ..\<close>. \<open>exec_assign\<close> runs one statement by calling the operator of
    \<open>Cx_Arith\<close>. \<open>run_assigns\<close> runs a sequence and stops at the first
    exception, as C++ does. The inductive relation \<open>reach\<close> (executable by
    \<^theory_text>\<open>code_pred\<close>) gives the values reachable by statements of a given kind,
    such as \<open>real_operand\<close> or \<open>nonzero_operand\<close>.
  \<^item> \<open>Spec2Isabelle\<close>: this header and the properties that span components: the
    product with the conjugate (arithmetic and modulus), the phase of a power (power
    and phase), and the non-zero invariant (statement sequences and the abstraction).

  \<^bold>\<open>What the lemmas show.\<close>
  \<^item> Errors: both divisions throw exactly on a zero divisor, and the compound forms
    pass the error on. A sequence of statements completes exactly when none of them
    divides by zero.
  \<^item> Functional behaviour: the zero-dividend shortcut of \<open>operator/\<close> only
    optimises the general formula, and division and multiplication round-trip.
    Scalar assignment resets the value. A value times its conjugate is
    \<open>(mod^2, 0)\<close>.
  \<^item> Refinement: every operation implements its counterpart on \<open>complex\<close>. \<open>+\<close>,
    \<open>-\<close>, \<open>*\<close> and \<open>cnj\<close> map exactly, division maps to \<open>/\<close> with the error on
    zero, \<open>mod\<close> is \<open>cmod\<close>, \<open>getPhase\<close> is \<open>Arg\<close>, and
    \<open>power(x, n)\<close> is \<open>x ^ |n|\<close>.
  \<^item> Equivalence: exponentiation by squaring equals repeated multiplication, and the
    scalar overloads equal the complex operators applied to \<open>(x, 0)\<close>.
  \<^item> Polar form and bounds: modulus and phase rebuild the value. The phase of a
    product, a quotient and a power is known up to \<open>2 pi\<close>, and so is the phase of a
    conjugate off the real axis. The recursion depth \<open>d\<close> of \<open>power\<close> satisfies
    \<open>2 ^ (d - 1) \<le> |n| < 2 ^ d\<close>, which is 32 at \<^verbatim>\<open>INT_MIN\<close>.
  \<^item> Termination: the recursion relation of \<open>power\<close> is well-founded, so its domain
    is every input; the depth \<open>power_depth\<close> is a variant that drops by one at each call.
  \<^item> Invariants of statement sequences, by rule induction over \<open>reach\<close>: the real axis
    is invariant under statements with real operands, and a non-zero value stays
    non-zero under assignments, multiplications and divisions by non-zero operands.
  \<^item> Output: the exact output of \<open>display\<close> in \<^verbatim>\<open>POLAR\<close> mode and in
    \<^verbatim>\<open>ANGLE\<close> mode in degrees; every other mode leaves the error stream alone. The
    program's output is the text \<^verbatim>\<open>(5, 2)\<close> and \<^verbatim>\<open>10.3942 L 0.0308159 deg\<close>.
    The two irrational numbers are pinned to six digits by squaring for \<open>sqrt\<close> and
    by four and five terms of the arctangent series.
  \<^item> Printing round trip: the text of \<^verbatim>\<open>operator<<\<close> reads back exactly when both
    parts have at most six significant digits, and within a relative error of
    \<open>5 * 10^-6\<close> always.

  \<^bold>\<open>Findings.\<close>
  \<^item> A negative exponent yields \<open>x ^ |n|\<close>, not a reciprocal.
  \<^item> \<open>conjugate(c)\<close> ignores \<open>c\<close>, although its comment says it returns the
    conjugate of \<open>c\<close>.
  \<^item> The \<^verbatim>\<open>deg\<close> output of \<^verbatim>\<open>ANGLE\<close> mode is below 1 in magnitude, so it is
    not degrees.
  \<^item> \<^verbatim>\<open>POLAR\<close> mode prints only the warning.
  \<^item> The spec does not say how numbers are written. Six significant digits do not
    identify a value with more digits.
  \<^item> With IEEE doubles, \<open>getPhase\<close> returns \<open>-pi\<close> for a negative real part and
    imaginary part \<open>-0.0\<close>, for example on the conjugate of \<open>(-1, 0)\<close>. This is
    outside the range \<open>(-pi, pi]\<close> that the spec states. The exact model cannot
    express it, see below.

  \<^bold>\<open>Choices.\<close> The scalar \<open>T\<close> is a type variable whose sort is what each
  operation needs (\<open>plus\<close>, \<open>field\<close>, \<dots>). \<^verbatim>\<open>mod\<close>, \<^verbatim>\<open>getPhase\<close>,
  \<^verbatim>\<open>display\<close> and \<^verbatim>\<open>main\<close> are on \<open>real\<close>, for \<^verbatim>\<open>Complex<double>\<close>.
  Arithmetic is exact: IEEE rounding, infinities and NaN are not modelled, so
  the theorems are about the exact values that the floating-point results
  approximate. The exponent is an unbounded \<open>int\<close>: \<open>n / 2\<close> and \<open>n % 2\<close>
  cannot overflow a 32-bit \<^verbatim>\<open>int\<close>, so nothing is lost. No loop needs fuel:
  \<open>power_Complex\<close> is total by its measure. A stream keeps each written item
  with its exact value. \<open>stream_text\<close> then renders numbers as
  \<^verbatim>\<open>std::ostream\<close> does, rounding the exact value to six digits with ties to even.
  The code commented out in \<^verbatim>\<open>main\<close> is not modelled.

  \<^bold>\<open>Not modelled.\<close> The IEEE-754 semantics of \<open>double\<close> (rounding,
  overflow to infinity, NaN, signed zeros): the allowed libraries have no floating-point
  type, and every property is stated for exact values instead. Signed zeros matter for
  the phase: C's \<open>atan2\<close> distinguishes \<open>+0.0\<close> and \<open>-0.0\<close> on the negative real
  axis. The model's \<open>atan2\<close> gives \<open>pi\<close> there, so the statements about the phase
  are true of the program only away from signed zeros, and the conjugate claim excludes
  the real axis. For the same reason,
  the text printed for a computed result is that of the exact value. A \<open>double\<close>
  result could differ from it in the sixth digit when the exact value lies at a
  rounding boundary. The stream flags, such as precision and
  \<^verbatim>\<open>std::fixed\<close>, keep their defaults, because the program never changes them. The block of
  \<^verbatim>\<open>main\<close> that is commented out is not code. Its statements are covered by
  \<open>Cx_Session\<close>, and its sequence \<^verbatim>\<open>+= 5; -= 6; *= 7; /= 8\<close> is a witness there.

  \<^bold>\<open>Later work.\<close>
  \<^item> The text of the remaining display modes (\<^verbatim>\<open>RECT\<close>, \<^verbatim>\<open>EXP\<close>,
    \<^verbatim>\<open>CART\<close>) on concrete values.
\<close>

subsection \<open>Properties spanning the components\<close>

text \<open>Every statement of the kind \<open>nonzero_operand\<close> keeps a non-zero value
  non-zero: multiplication and division of \<^verbatim>\<open>Complex<double>\<close> have no zero
  divisors, as for \<open>complex\<close>.\<close>

lemma nonzero_abs: "z \<noteq> Complex_new 0 0 \<longleftrightarrow> abs_Complex z \<noteq> 0"
  by (simp add: abs_Complex_eq_0 Complex_eq_iff)

lemma sgn_power_complex: "sgn (z ^ n) = sgn z ^ n"
  for z :: complex
  by (simp add: sgn_div_norm norm_power power_divide power_inverse)

lemma exec_assign_nonzero:
  fixes s u :: "real Complex"
  assumes s: "s \<noteq> Complex_new 0 0" and op: "nonzero_operand op" and u: "exec_assign s op = Inr u"
  shows "u \<noteq> Complex_new 0 0"
proof (cases op)
  case (Mul_assign c)
  then have "u = operator_mul s c"
    using u by (simp add: operator_mul_assign_def)
  then have "abs_Complex u = abs_Complex s * abs_Complex c"
    by (simp add: abs_operator_mul)
  with s op Mul_assign show ?thesis by (simp add: nonzero_abs)
next
  case (Div_assign c)
  then obtain q where "operator_div s c = Inr q" "u = q"
    using u by (auto simp: operator_div_assign_def split: sum.splits)
  then have "abs_Complex u = abs_Complex s / abs_Complex c"
    by (simp add: operator_div_Inr_abs)
  with s op Div_assign show ?thesis by (simp add: nonzero_abs)
next
  case (Mul_assign_scalar x)
  with s op u show ?thesis
    by (auto simp: operator_mul_assign_scalar_def operator_mul_scalar_def Complex_eq_iff)
next
  case (Div_assign_scalar x)
  with s op u show ?thesis
    by (auto simp: operator_div_assign_scalar_def operator_div_scalar_def Complex_eq_iff)
next
  case (Assign c)
  with op u show ?thesis by simp
next
  case (Assign_scalar x)
  with op u show ?thesis by (simp add: operator_assign_scalar_def Complex_eq_iff)
qed (use op in simp_all)

text \<open>C28. A value times its conjugate is the square of its modulus, on the real
  axis: \<open>z * z.conjugate(c) = (mod(z)^2, 0)\<close>, whatever the unread argument \<open>c\<close>.\<close>

theorem mul_conjugate_mod:
  "operator_mul z (conjugate z c) = Complex_new (Complex_mod z ^ 2) 0"
  by (simp add: operator_mul_def conjugate_def Complex_mod_def power2_eq_square algebra_simps)

text \<open>C29. The phase of \<open>power(x, n)\<close> is \<open>|n|\<close> times the phase of a non-zero \<open>x\<close>,
  up to a whole multiple of \<open>2 pi\<close>: exponentiation by squaring composes with
  \<open>getPhase\<close> as De Moivre's formula says.\<close>

theorem getPhase_power:
  assumes "x \<noteq> Complex_new 0 0"
  shows "\<exists>k::int. getPhase (power_Complex x n) = real (nat \<bar>n\<bar>) * getPhase x + 2 * pi * k"
proof -
  have p: "power_Complex x n \<noteq> Complex_new 0 0"
    using assms by (simp add: nonzero_abs abs_power_Complex)
  have "cis (getPhase (power_Complex x n)) = sgn (abs_Complex x) ^ nat \<bar>n\<bar>"
    using p by (simp add: getPhase_cis abs_power_Complex sgn_power_complex)
  also have "\<dots> = cis (getPhase x) ^ nat \<bar>n\<bar>"
    using assms by (simp add: getPhase_cis)
  also have "\<dots> = cis (real (nat \<bar>n\<bar>) * getPhase x)"
    by (rule DeMoivre)
  finally show ?thesis by (rule cis_eq_2pi)
qed

theorem getPhase_power_witness:
  "Complex_new 0 1 \<noteq> Complex_new 0 (0 :: real) \<and>
   (\<exists>k::int. getPhase (power_Complex (Complex_new 0 1) 3) =
              real (nat \<bar>3\<bar>) * getPhase (Complex_new 0 (1 :: real)) + 2 * pi * k)"
  using getPhase_power [of "Complex_new 0 1" 3] by simp

text \<open>C30. A non-zero value stays non-zero under every sequence of assignments,
  multiplications and divisions by non-zero operands: an invariant of the reachable
  values, by rule induction over \<open>reach\<close>.\<close>

theorem reach_nonzero:
  assumes "reach nonzero_operand s t" and "s \<noteq> Complex_new 0 (0 :: real)"
  shows "t \<noteq> Complex_new 0 0"
  using assms
proof (induction rule: reach.induct)
  case (refl s)
  then show ?case .
next
  case (step s t op u)
  then have "t \<noteq> Complex_new 0 0" by blast
  then show ?case by (rule exec_assign_nonzero [OF _ step.hyps(2) step.hyps(3)])
qed

theorem reach_nonzero_witness:
  "reach nonzero_operand (Complex_new 1 1) (Complex_new 0 (2 :: real)) \<and>
   Complex_new 1 1 \<noteq> Complex_new 0 (0 :: real) \<and> Complex_new 0 2 \<noteq> Complex_new 0 (0 :: real)"
proof -
  have "exec_assign (Complex_new 1 1) (Mul_assign (Complex_new 1 1)) = Inr (Complex_new 0 (2 :: real))"
    by (simp add: operator_mul_assign_def operator_mul_def)
  then have r: "reach nonzero_operand (Complex_new 1 1) (Complex_new 0 (2 :: real))"
    using reach.step [OF reach.refl [of nonzero_operand "Complex_new 1 (1 :: real)"],
        of "Mul_assign (Complex_new 1 1)"]
    by simp
  have "Complex_new 1 1 \<noteq> Complex_new 0 (0 :: real)" by simp
  with r reach_nonzero [OF r] show ?thesis by simp
qed

end
